theory Spec2Isabelle
  imports Main "HOL-Library.Word"
begin

unbundle bit_operations_syntax

section \<open>Data model of preload.c\<close>

text \<open>
  The C types of the source on Linux/x86-64: \<open>off_t\<close>, \<open>dev_t\<close> and \<open>ino_t\<close> are
  64 bits wide, \<open>uint32_t\<close> is 32 bits, \<open>uint8_t\<close> is 8 bits.  An \<open>off_t\<close> is
  signed: it is read with \<open>sint\<close> and compared with \<open>\<le>s\<close> and \<open><s\<close>.  Values of C type
  \<open>int\<close> (descriptors, return codes, \<open>whence\<close>, the partition number) are never
  combined arithmetically beyond \<open>(part_num - 1) * 16\<close>, so they are \<open>int\<close>.
\<close>

type_synonym off_t = "64 word"
type_synonym dev_t = "64 word"
type_synonym ino_t = "64 word"
type_synonym uint32_t = "32 word"
type_synonym uint8_t = "8 word"

text \<open>\<open>struct stat\<close> of the system headers.\<close>

record stat_buf =
  st_dev :: dev_t
  st_ino :: ino_t
  st_nlink :: "64 word"
  st_mode :: "32 word"
  st_uid :: "32 word"
  st_gid :: "32 word"
  st_rdev :: dev_t
  st_size :: off_t
  st_blksize :: "64 word"
  st_blocks :: "64 word"
  st_atime :: "64 word"
  st_mtime :: "64 word"
  st_ctime :: "64 word"

text \<open>The lines written to \<open>stderr\<close>, one constructor per \<open>fprintf\<close> of the source.\<close>

datatype diag =
    Failed_to_read_MBR int
  | MBR_signature_missing uint8_t uint8_t
  | Extended_partitions
  | Invalid_lba_or_sectors uint32_t uint32_t
  | Partition_detected off_t off_t
  | Filename_not_given
  | Failed_to_open string
  | Error_in_stat
  | Partition_number_not_given
  | Invalid_partition string
  | Failed_to_get_partition
  | Error_in_dlsym string
  | Invalid_location off_t

text \<open>
  Everything the library does to the outside world is recorded, in order, in a trace:
  symbol lookups, system calls, calls of the real operations and diagnostics.
\<close>

datatype event =
    Ev_dlsym string
  | Ev_getenv string
  | Ev_open string
  | Ev_read int
  | Ev_close int
  | Ev_real_lseek int off_t int
  | Ev_real_stat int string
  | Ev_real_fstat int int
  | Ev_stderr diag

type_synonym lseek_fn = "event list \<Rightarrow> int \<Rightarrow> off_t \<Rightarrow> int \<Rightarrow> off_t"
type_synonym xstat_fn = "event list \<Rightarrow> int \<Rightarrow> string \<Rightarrow> stat_buf \<Rightarrow> int \<times> stat_buf"
type_synonym fxstat_fn = "event list \<Rightarrow> int \<Rightarrow> int \<Rightarrow> stat_buf \<Rightarrow> int \<times> stat_buf"

text \<open>
  The process environment: the C library and the kernel.  Every operation receives the
  trace so far, so that its answer may depend on all that happened before.
  \<open>sys_read\<close> is \<open>read(fd, mbr, 512)\<close>: its return value and the bytes of the buffer.
  \<open>stack_buf\<close> is the indeterminate initial content of the local \<open>struct stat\<close> of
  \<open>init\<close>, \<open>stat_ver\<close> the \<open>_STAT_VER\<close> that the inline \<open>fstat\<close> passes to
  \<open>__fxstat\<close>.
\<close>

record env =
  getenv :: "event list \<Rightarrow> string \<Rightarrow> string option"
  atoi :: "string \<Rightarrow> int"
  sys_open :: "event list \<Rightarrow> string \<Rightarrow> int"
  sys_read :: "event list \<Rightarrow> int \<Rightarrow> int \<times> uint8_t list"
  dlsym_lseek :: "event list \<Rightarrow> lseek_fn option"
  dlsym_xstat :: "event list \<Rightarrow> xstat_fn option"
  dlsym_fxstat :: "event list \<Rightarrow> fxstat_fn option"
  stack_buf :: stat_buf
  stat_ver :: int

text \<open>The static variables of the file, \<open>errno\<close> as this file writes it, and the trace.\<close>

record gstate =
  initialized :: bool
  file_dev :: dev_t
  file_ino :: ino_t
  partition_size_bytes :: off_t
  partition_base_bytes :: off_t
  partition_end_bytes :: off_t
  real_lseek :: "lseek_fn option"
  real_stat :: "xstat_fn option"
  real_fstat :: "fxstat_fn option"
  errno :: int
  trace :: "event list"

text \<open>
  A call returns a value and the new state, or ends the process in \<open>abort()\<close>, or has no
  defined behaviour in C (an access before the start of the sector buffer).
\<close>

datatype 'a outcome = Return 'a gstate | Abort gstate | Undefined

definition emit :: "event \<Rightarrow> gstate \<Rightarrow> gstate" where
  "emit e st = st\<lparr>trace := trace st @ [e]\<rparr>"

section \<open>get_partition\<close>

text \<open>A \<open>uint32_t\<close> field of the packed entry, read as little endian (\<open>htole32\<close>).\<close>

definition le32 :: "uint8_t list \<Rightarrow> nat \<Rightarrow> uint32_t" where
  "le32 m i = ucast (m ! i) OR push_bit 8 (ucast (m ! (i + 1)))
     OR push_bit 16 (ucast (m ! (i + 2))) OR push_bit 24 (ucast (m ! (i + 3)))"

text \<open>
  The products \<open>start_lba * 512\<close> and \<open>num_sectors * 512\<close> are computed in
  \<open>uint32_t\<close> (the usual arithmetic conversions turn the \<open>int\<close> 512 into
  \<open>unsigned int\<close>) and only then widened to \<open>off_t\<close>.
\<close>

definition get_partition :: "env \<Rightarrow> gstate \<Rightarrow> string \<Rightarrow> int \<Rightarrow> int outcome" where
  "get_partition e st name part_num =
    (let fd = sys_open e (trace st) name;
         st1 = emit (Ev_open name) st
     in if fd < 0 then Return (- 1) st1
     else
       let (ret, mbr) = sys_read e (trace st1) fd;
           st2 = emit (Ev_read fd) st1
       in if ret \<noteq> 512 then
            Return (- 1) (emit (Ev_close fd) (emit (Ev_stderr (Failed_to_read_MBR ret)) st2))
       else if mbr ! 511 \<noteq> 0xAA \<or> mbr ! 510 \<noteq> 0x55 then
            Return (- 1) (emit (Ev_close fd)
              (emit (Ev_stderr (MBR_signature_missing (mbr ! 510) (mbr ! 511))) st2))
       else if \<not> part_num < 4 then
            Return (- 1) (emit (Ev_close fd) (emit (Ev_stderr Extended_partitions) st2))
       else
         let part = 446 + (part_num - 1) * 16
         in if part < 0 then Undefined
         else
           let start_lba = le32 mbr (nat part + 8);
               num_sectors = le32 mbr (nat part + 12)
           in if start_lba = 0 \<or> num_sectors = 0 then
                Return (- 1) (emit (Ev_close fd)
                  (emit (Ev_stderr (Invalid_lba_or_sectors start_lba num_sectors)) st2))
           else
             let base = (ucast (start_lba * 512) :: off_t);
                 size = (ucast (num_sectors * 512) :: off_t);
                 st3 = st2\<lparr>partition_base_bytes := base,
                           partition_size_bytes := size,
                           partition_end_bytes := base + size\<rparr>
             in Return 0 (emit (Ev_close fd)
                  (emit (Ev_stderr (Partition_detected base size)) st3)))"

section \<open>init and the stat-by-descriptor override\<close>

text \<open>\<open>S_ISREG\<close> of the system headers: \<open>(m & 0170000) == 0100000\<close>.\<close>

definition S_ISREG :: "32 word \<Rightarrow> bool" where
  "S_ISREG m = (m AND 0xF000 = 0x8000)"

definition fixup_statbuf :: "gstate \<Rightarrow> int \<Rightarrow> stat_buf \<Rightarrow> int \<times> stat_buf" where
  "fixup_statbuf st ret buf =
    (if ret = 0 \<and> S_ISREG (st_mode buf) \<and> st_dev buf = file_dev st \<and> st_ino buf = file_ino st
     then (ret, buf\<lparr>st_size := partition_size_bytes st\<rparr>)
     else (ret, buf))"

text \<open>
  The second half of \<open>init\<close> (from the comment ``Find the partition inside the file,
  based on the partition table'' to the end of the function): read \<open>P_NUM\<close>, check its
  range and resolve the partition.
\<close>

definition init_partition :: "env \<Rightarrow> gstate \<Rightarrow> string \<Rightarrow> unit outcome" where
  "init_partition e st filename =
    (let part_num_str = getenv e (trace st) ''P_NUM'';
         st1 = emit (Ev_getenv ''P_NUM'') st
     in case part_num_str of
          None \<Rightarrow> Abort (emit (Ev_stderr Partition_number_not_given) st1)
        | Some part_num_str \<Rightarrow>
           (let part_num = atoi e part_num_str
            in if part_num < 1 \<or> part_num > 8 then
                 Abort (emit (Ev_stderr (Invalid_partition part_num_str)) st1)
               else
                (case get_partition e st1 filename part_num of
                   Abort s \<Rightarrow> Abort s
                 | Undefined \<Rightarrow> Undefined
                 | Return ret st2 \<Rightarrow>
                     if ret < 0 then Abort (emit (Ev_stderr Failed_to_get_partition) st2)
                     else Return () st2)))"

text \<open>
  The first half of \<open>init\<close> calls \<open>fstat\<close>, which the C library of
  \<open>__xstat\<close>/\<open>__fxstat\<close> defines as a wrapper around
  \<open>__fxstat(_STAT_VER, fd, buf)\<close>; that symbol is the override of this file, which in
  turn calls \<open>init\<close> when it resolves its real operation.  The two functions are
  therefore mutually recursive.  A call through a pointer that is still \<open>NULL\<close> has no
  defined behaviour.
\<close>

function init :: "env \<Rightarrow> gstate \<Rightarrow> unit outcome"
  and fxstat :: "env \<Rightarrow> gstate \<Rightarrow> int \<Rightarrow> int \<Rightarrow> stat_buf \<Rightarrow> (int \<times> stat_buf) outcome"
where
  "init e st =
    (if initialized st then Return () st
     else
       let st1 = st\<lparr>initialized := True\<rparr>;
           filename = getenv e (trace st1) ''P_FILE'';
           st2 = emit (Ev_getenv ''P_FILE'') st1
       in case filename of
            None \<Rightarrow> Abort (emit (Ev_stderr Filename_not_given) st2)
          | Some filename \<Rightarrow>
             (let fd = sys_open e (trace st2) filename;
                  st3 = emit (Ev_open filename) st2
              in if fd < 0 then Abort (emit (Ev_stderr (Failed_to_open filename)) st3)
              else
               (case fxstat e st3 (stat_ver e) fd (stack_buf e) of
                  Abort s \<Rightarrow> Abort s
                | Undefined \<Rightarrow> Undefined
                | Return (ret, buf) st4 \<Rightarrow>
                    if ret < 0 then Abort (emit (Ev_stderr Error_in_stat) st4)
                    else
                      init_partition e
                        ((emit (Ev_close fd) st4)
                           \<lparr>file_dev := st_dev buf, file_ino := st_ino buf\<rparr>)
                        filename)))"
| "fxstat e st ver fd buf =
    (case (if real_fstat st = None then
             let sym = dlsym_fxstat e (trace st);
                 st1 = (emit (Ev_dlsym ''__fxstat'') st)\<lparr>real_fstat := sym\<rparr>
             in if sym = None then Abort (emit (Ev_stderr (Error_in_dlsym ''fstat'')) st1)
                else init e st1
           else Return () st) of
       Abort s \<Rightarrow> Abort s
     | Undefined \<Rightarrow> Undefined
     | Return _ st2 \<Rightarrow>
         (case real_fstat st2 of
            None \<Rightarrow> Undefined
          | Some f \<Rightarrow>
              let (ret, buf1) = f (trace st2) ver fd buf;
                  st3 = emit (Ev_real_fstat ver fd) st2
              in Return (fixup_statbuf st3 ret buf1) st3))"
  by pat_completeness auto
termination
  by (relation "measure (\<lambda>x. case x of
          Inl (e, st) \<Rightarrow> (if initialized st then 0 else 2)
        | Inr (e, st, ver, fd, buf) \<Rightarrow> (if initialized st then 1 else 3))")
     (auto simp: emit_def)

section \<open>The seek override\<close>

text \<open>\<open>SEEK_SET\<close>, \<open>SEEK_CUR\<close>, \<open>SEEK_END\<close> and \<open>EINVAL\<close> as Linux defines them.\<close>

definition SEEK_SET :: int where "SEEK_SET = 0"
definition SEEK_CUR :: int where "SEEK_CUR = 1"
definition SEEK_END :: int where "SEEK_END = 2"
definition EINVAL :: int where "EINVAL = 22"

text \<open>
  The \<open>switch (whence)\<close> of \<open>lseek\<close>: the offset and whence handed to the real
  operation, or \<open>None\<close> in the \<open>default\<close> case.  \<open>offset += partition_base_bytes\<close>
  is a 64-bit two's complement addition.
\<close>

definition lseek_switch :: "gstate \<Rightarrow> off_t \<Rightarrow> int \<Rightarrow> (off_t \<times> int) option" where
  "lseek_switch st offset whence =
    (if whence = SEEK_SET then
       let offset1 = offset + partition_base_bytes st
       in Some (if partition_end_bytes st <s offset1 then partition_end_bytes st else offset1,
                whence)
     else if whence = SEEK_CUR then Some (offset, whence)
     else if whence = SEEK_END then Some (partition_end_bytes st, SEEK_SET)
     else None)"

definition lseek :: "env \<Rightarrow> gstate \<Rightarrow> int \<Rightarrow> off_t \<Rightarrow> int \<Rightarrow> off_t outcome" where
  "lseek e st fd offset whence =
    (case (if real_lseek st = None then
             let sym = dlsym_lseek e (trace st);
                 st1 = (emit (Ev_dlsym ''lseek'') st)\<lparr>real_lseek := sym\<rparr>
             in if sym = None then Abort (emit (Ev_stderr (Error_in_dlsym ''lseek'')) st1)
                else init e st1
           else Return () st) of
       Abort s \<Rightarrow> Abort s
     | Undefined \<Rightarrow> Undefined
     | Return _ st2 \<Rightarrow>
        (case lseek_switch st2 offset whence of
           None \<Rightarrow> Return (- 1) (st2\<lparr>errno := EINVAL\<rparr>)
         | Some (offset1, whence1) \<Rightarrow>
            (case real_lseek st2 of
               None \<Rightarrow> Undefined
             | Some f \<Rightarrow>
                 let ret = f (trace st2) fd offset1 whence1;
                     st3 = emit (Ev_real_lseek fd offset1 whence1) st2
                 in if ret <s 0 then Return ret st3
                    else if partition_base_bytes st3 \<le>s ret then
                      Return (ret - partition_base_bytes st3) st3
                    else Abort (emit (Ev_stderr (Invalid_location ret)) st3))))"

section \<open>The stat-by-path and preallocate overrides\<close>

definition xstat :: "env \<Rightarrow> gstate \<Rightarrow> int \<Rightarrow> string \<Rightarrow> stat_buf \<Rightarrow> (int \<times> stat_buf) outcome" where
  "xstat e st ver path buf =
    (case (if real_stat st = None then
             let sym = dlsym_xstat e (trace st);
                 st1 = (emit (Ev_dlsym ''__xstat'') st)\<lparr>real_stat := sym\<rparr>
             in if sym = None then Abort (emit (Ev_stderr (Error_in_dlsym ''stat'')) st1)
                else init e st1
           else Return () st) of
       Abort s \<Rightarrow> Abort s
     | Undefined \<Rightarrow> Undefined
     | Return _ st2 \<Rightarrow>
         (case real_stat st2 of
            None \<Rightarrow> Undefined
          | Some f \<Rightarrow>
              let (ret, buf1) = f (trace st2) ver path buf;
                  st3 = emit (Ev_real_stat ver path) st2
              in Return (fixup_statbuf st3 ret buf1) st3))"

definition fallocate :: "env \<Rightarrow> gstate \<Rightarrow> int \<Rightarrow> int \<Rightarrow> off_t \<Rightarrow> off_t \<Rightarrow> int outcome" where
  "fallocate e st fd mode offset len = Return 0 st"

section \<open>Sequences of calls\<close>

text \<open>
  A host process calls the four overrides in some order; the environment may answer
  differently at every call.  A run stops at the first \<open>abort()\<close>.
\<close>

datatype call =
    Call_lseek int off_t int
  | Call_xstat int string stat_buf
  | Call_fxstat int int stat_buf
  | Call_fallocate int int off_t off_t

definition forget :: "'a outcome \<Rightarrow> unit outcome" where
  "forget out = (case out of Return v s \<Rightarrow> Return () s | Abort s \<Rightarrow> Abort s | Undefined \<Rightarrow> Undefined)"

fun step :: "env \<Rightarrow> gstate \<Rightarrow> call \<Rightarrow> unit outcome" where
  "step e st (Call_lseek fd offset whence) = forget (lseek e st fd offset whence)"
| "step e st (Call_xstat ver path buf) = forget (xstat e st ver path buf)"
| "step e st (Call_fxstat ver fd buf) = forget (fxstat e st ver fd buf)"
| "step e st (Call_fallocate fd mode offset len) = forget (fallocate e st fd mode offset len)"

fun run :: "gstate \<Rightarrow> (env \<times> call) list \<Rightarrow> unit outcome" where
  "run st [] = Return () st"
| "run st ((e, c) # cs) =
     (case step e st c of
        Return u st' \<Rightarrow> run st' cs
      | Abort s \<Rightarrow> Abort s
      | Undefined \<Rightarrow> Undefined)"

text \<open>The static variables when the library is loaded: all zero, no pointer resolved.\<close>

definition start_state :: gstate where
  "start_state = \<lparr>initialized = False, file_dev = 0, file_ino = 0, partition_size_bytes = 0,
     partition_base_bytes = 0, partition_end_bytes = 0, real_lseek = None, real_stat = None,
     real_fstat = None, errno = 0, trace = []\<rparr>"

section \<open>Observations on states and traces\<close>

text \<open>
  A window as \<open>get_partition\<close> leaves it: base and size are not negative, and the end
  is their sum without wrap-around.
\<close>

definition window_ok :: "gstate \<Rightarrow> bool" where
  "window_ok st \<longleftrightarrow>
     0 \<le> sint (partition_base_bytes st) \<and> 0 \<le> sint (partition_size_bytes st) \<and>
     sint (partition_end_bytes st) = sint (partition_base_bytes st) + sint (partition_size_bytes st)"

text \<open>The window and the identity of the target file are the same in two states.\<close>

definition same_window :: "gstate \<Rightarrow> gstate \<Rightarrow> bool" where
  "same_window st st' \<longleftrightarrow>
     partition_base_bytes st' = partition_base_bytes st \<and>
     partition_size_bytes st' = partition_size_bytes st \<and>
     partition_end_bytes st' = partition_end_bytes st \<and>
     file_dev st' = file_dev st \<and> file_ino st' = file_ino st"

text \<open>The calls of the real seek in a trace.\<close>

fun is_real_lseek :: "event \<Rightarrow> bool" where
  "is_real_lseek (Ev_real_lseek fd offset whence) = True"
| "is_real_lseek ev = False"

definition real_seeks :: "event list \<Rightarrow> event list" where
  "real_seeks tr = filter is_real_lseek tr"

text \<open>The symbols looked up with \<open>dlsym\<close> in a trace, in order.\<close>

fun dlsym_names :: "event list \<Rightarrow> string list" where
  "dlsym_names [] = []"
| "dlsym_names (Ev_dlsym n # evs) = n # dlsym_names evs"
| "dlsym_names (ev # evs) = dlsym_names evs"

text \<open>
  How often the work of \<open>init\<close> was started: \<open>getenv("P_FILE")\<close> is its first action
  after the flag is set, and nothing else reads that variable.
\<close>

definition init_runs :: "event list \<Rightarrow> nat" where
  "init_runs tr = count_list tr (Ev_getenv ''P_FILE'')"

text \<open>
  What a nested piece of \<open>init\<close> may change between two states: no pointer but
  \<open>real_fstat\<close>, and that one only from \<open>NULL\<close>, with exactly one lookup.
\<close>

definition frame :: "gstate \<Rightarrow> gstate \<Rightarrow> bool" where
  "frame st st' \<longleftrightarrow>
     real_lseek st' = real_lseek st \<and> real_stat st' = real_stat st \<and> errno st' = errno st \<and>
     (real_fstat st \<noteq> None \<longrightarrow> real_fstat st' = real_fstat st) \<and>
     real_seeks (trace st') = real_seeks (trace st) \<and>
     dlsym_names (trace st') = dlsym_names (trace st) @
        (if real_fstat st = None \<and> real_fstat st' \<noteq> None then [''__fxstat''] else [])"

definition abort_frame :: "gstate \<Rightarrow> gstate \<Rightarrow> bool" where
  "abort_frame st s \<longleftrightarrow>
     real_seeks (trace s) = real_seeks (trace st) \<and>
     (dlsym_names (trace s) = dlsym_names (trace st) \<or>
      dlsym_names (trace s) = dlsym_names (trace st) @ [''__fxstat''] \<and> real_fstat st = None)"

text \<open>
  The state between two calls of a run: no symbol was looked up twice, every pointer is
  set exactly when its symbol was looked up, the flag is set exactly when some symbol
  was looked up, and the work of \<open>init\<close> has run once in that case and not at all
  otherwise.
\<close>

definition resolved_once :: "gstate \<Rightarrow> bool" where
  "resolved_once st \<longleftrightarrow>
     distinct (dlsym_names (trace st)) \<and>
     (''lseek'' \<in> set (dlsym_names (trace st))) = (real_lseek st \<noteq> None) \<and>
     (''__xstat'' \<in> set (dlsym_names (trace st))) = (real_stat st \<noteq> None) \<and>
     (''__fxstat'' \<in> set (dlsym_names (trace st))) = (real_fstat st \<noteq> None) \<and>
     initialized st = (dlsym_names (trace st) \<noteq> []) \<and>
     init_runs (trace st) = (if dlsym_names (trace st) = [] then 0 else 1)"

text \<open>The trace of a process that ended in \<open>abort()\<close>.\<close>

definition abort_once :: "gstate \<Rightarrow> bool" where
  "abort_once s \<longleftrightarrow> distinct (dlsym_names (trace s)) \<and> init_runs (trace s) \<le> 1"

text \<open>A pointer that is resolved in the first state is the same in the second.\<close>

definition pointers_kept :: "gstate \<Rightarrow> gstate \<Rightarrow> bool" where
  "pointers_kept st st' \<longleftrightarrow>
     (real_lseek st \<noteq> None \<longrightarrow> real_lseek st' = real_lseek st) \<and>
     (real_stat st \<noteq> None \<longrightarrow> real_stat st' = real_stat st) \<and>
     (real_fstat st \<noteq> None \<longrightarrow> real_fstat st' = real_fstat st)"

section \<open>Test data\<close>

text \<open>
  A boot sector with one 16-byte entry in the given slot (1 to 4) and the signature, an
  entry with the given little-endian start sector and sector count, and an environment
  in which every call succeeds on an image whose boot sector is the given one.
\<close>

definition sector_of :: "nat \<Rightarrow> uint8_t list \<Rightarrow> uint8_t list" where
  "sector_of slot entry =
     replicate (446 + 16 * (slot - 1)) 0 @ entry @ replicate (16 * (4 - slot)) 0 @ [0x55, 0xAA]"

definition entry_of :: "uint8_t list \<Rightarrow> uint8_t list \<Rightarrow> uint8_t list" where
  "entry_of lba num = [0x80, 0, 0, 0, 0x83, 0, 0, 0] @ lba @ num"

definition ideal_lseek :: lseek_fn where
  "ideal_lseek tr fd offset whence = (if offset <s 0 then - 1 else offset)"

definition image_stat :: stat_buf where
  "image_stat = \<lparr>st_dev = 2049, st_ino = 77, st_nlink = 1, st_mode = 0x81A4, st_uid = 1000,
     st_gid = 1000, st_rdev = 0, st_size = 0x40000000, st_blksize = 4096, st_blocks = 0x200000,
     st_atime = 0, st_mtime = 0, st_ctime = 0\<rparr>"

definition image_xstat :: xstat_fn where
  "image_xstat tr ver path buf =
     (if path = ''disk.img'' then (0, image_stat)
      else if path = ''notes.txt'' then (0, image_stat\<lparr>st_ino := 78, st_size := 10\<rparr>)
      else (- 1, buf))"

definition image_fxstat :: fxstat_fn where
  "image_fxstat tr ver fd buf = (if fd = 3 then (0, image_stat) else (- 1, buf))"

definition test_env :: "uint8_t list \<Rightarrow> string \<Rightarrow> env" where
  "test_env mbr num =
     \<lparr>getenv = (\<lambda>tr n. if n = ''P_FILE'' then Some ''disk.img''
                        else if n = ''P_NUM'' then Some num else None),
      atoi = (\<lambda>s. case s of [c] \<Rightarrow> int (of_char c) - 48 | _ \<Rightarrow> 0),
      sys_open = (\<lambda>tr name. 3),
      sys_read = (\<lambda>tr fd. (512, mbr)),
      dlsym_lseek = (\<lambda>tr. Some ideal_lseek),
      dlsym_xstat = (\<lambda>tr. Some image_xstat),
      dlsym_fxstat = (\<lambda>tr. Some image_fxstat),
      stack_buf = image_stat\<lparr>st_dev := 0, st_ino := 0, st_size := 0\<rparr>,
      stat_ver = 1\<rparr>"

text \<open>
  The scenario of the specification: slot 1 starts at sector 2048 and has 204800 sectors.
\<close>

definition spec_sector :: "uint8_t list" where
  "spec_sector = sector_of 1 (entry_of [0x00, 0x08, 0x00, 0x00] [0x00, 0x20, 0x03, 0x00])"

definition ready_state :: gstate where
  "ready_state = \<lparr>initialized = True, file_dev = 2049, file_ino = 77,
     partition_size_bytes = 104857600, partition_base_bytes = 1048576,
     partition_end_bytes = 105906176, real_lseek = Some ideal_lseek,
     real_stat = Some image_xstat, real_fstat = Some image_fxstat, errno = 0, trace = []\<rparr>"

text \<open>
  A run of the scenario: a preallocation, a seek past the end, a stat of the image and a
  seek to the end, and the trace it leaves.
\<close>

definition spec_env :: env where
  "spec_env = test_env spec_sector ''1''"

definition spec_calls :: "(env \<times> call) list" where
  "spec_calls =
     [(spec_env, Call_fallocate 3 0 0 4096),
      (spec_env, Call_lseek 3 104857700 SEEK_SET),
      (spec_env, Call_xstat 1 ''disk.img'' image_stat),
      (spec_env, Call_lseek 3 0 SEEK_END)]"

definition spec_trace :: "event list" where
  "spec_trace =
     [Ev_dlsym ''lseek'', Ev_getenv ''P_FILE'', Ev_open ''disk.img'',
      Ev_dlsym ''__fxstat'', Ev_real_fstat 1 3, Ev_close 3,
      Ev_getenv ''P_NUM'', Ev_open ''disk.img'', Ev_read 3,
      Ev_stderr (Partition_detected 1048576 104857600), Ev_close 3,
      Ev_real_lseek 3 105906176 0, Ev_dlsym ''__xstat'',
      Ev_real_stat 1 ''disk.img'', Ev_real_lseek 3 105906176 0]"

section \<open>Partition resolution\<close>

declare init.simps [simp del] fxstat.simps [simp del]

text \<open>
  What \<open>get_partition\<close> does on a signed sector for the indices it accepts: it reads the
  entry at byte offset \<open>446 + (n - 1) * 16\<close> and stores the window.
\<close>

lemma get_partition_primary:
  assumes "0 \<le> sys_open e (trace st) name"
    and "sys_read e (trace st @ [Ev_open name]) (sys_open e (trace st) name) = (512, mbr)"
    and "mbr ! 510 = 0x55" and "mbr ! 511 = 0xAA"
    and "1 \<le> n" and "n < 4"
    and "le32 mbr (nat (446 + (n - 1) * 16) + 8) = L"
    and "le32 mbr (nat (446 + (n - 1) * 16) + 12) = S"
    and "L \<noteq> 0" and "S \<noteq> 0"
  shows "get_partition e st name n =
     Return 0 (st\<lparr>partition_size_bytes := ucast (S * 512),
                   partition_base_bytes := ucast (L * 512),
                   partition_end_bytes := ucast (L * 512) + ucast (S * 512),
                   trace := trace st @ [Ev_open name, Ev_read (sys_open e (trace st) name),
                      Ev_stderr (Partition_detected (ucast (L * 512)) (ucast (S * 512))),
                      Ev_close (sys_open e (trace st) name)]\<rparr>)"
  using assms by (simp add: get_partition_def emit_def Let_def)

subsection \<open>Widening a 32-bit product to \<open>off_t\<close>\<close>

lemma uint_widen: "uint (ucast (w :: uint32_t) :: off_t) = uint w"
  by (simp add: uint_up_ucast is_up)

lemma uint_times_512: "uint ((w :: uint32_t) * 512) = (uint w * 512) mod 2 ^ 32"
  by (simp add: uint_word_ariths take_bit_eq_mod)

lemma uint_window_end:
  "uint ((ucast (a :: uint32_t) :: off_t) + ucast (b :: uint32_t)) = uint a + uint b"
proof -
  have "uint a < 2 ^ 32" "uint b < 2 ^ 32"
    using uint_lt2p [of a] uint_lt2p [of b] by simp_all
  then have "uint a + uint b < 2 ^ 64" by simp
  then show ?thesis
    by (simp add: uint_word_ariths uint_widen take_bit_eq_mod)
qed

lemma sint_widen: "sint (ucast (w :: uint32_t) :: off_t) = uint w"
proof -
  have "uint w < 2 ^ 32" using uint_lt2p [of w] by simp
  then have hi: "uint w < 2 ^ 63" by (rule less_trans) simp
  have lo: "- (2 ^ 63) \<le> uint w" by (rule order_trans [of _ 0]) simp_all
  show ?thesis
    by (simp add: sint_uint uint_widen signed_take_bit_int_eq_self [OF lo hi])
qed

lemma sint_window_end:
  "sint ((ucast (a :: uint32_t) :: off_t) + ucast (b :: uint32_t)) = uint a + uint b"
proof -
  have "uint a < 2 ^ 32" "uint b < 2 ^ 32"
    using uint_lt2p [of a] uint_lt2p [of b] by simp_all
  then have "uint a + uint b < 2 ^ 32 + 2 ^ 32" by (rule add_strict_mono)
  then have hi: "uint a + uint b < 2 ^ 63" by (rule less_trans) simp
  have lo: "- (2 ^ 63) \<le> uint a + uint b" by (rule order_trans [of _ 0]) simp_all
  show ?thesis
    by (simp add: sint_uint uint_window_end signed_take_bit_int_eq_self [OF lo hi])
qed

text \<open>Whatever \<open>get_partition\<close> stores is a well-formed window.\<close>

lemma get_partition_window_ok:
  assumes "get_partition e st name n = Return 0 st'"
  shows "window_ok st'"
  using assms
  by (auto simp: get_partition_def emit_def Let_def window_ok_def sint_widen sint_window_end
           split: if_splits prod.splits)

subsection \<open>The claims on \<open>get_partition\<close>\<close>

text \<open>
  C1 (the code departs from the claim).  The claim lets every index from 1 to 4 reach
  the entry at \<open>446 + (i - 1) * 16\<close> and lets only 5 to 8 fail.  Indices 1 to 3 do reach
  their entry (\<open>get_partition_primary\<close>), but the test of the source is
  \<open>part_num < 4\<close>: for every sector that passes the signature check, index 4, the last
  primary slot, takes the branch of the extended partitions, returns \<open>-1\<close> with that
  diagnostic and leaves the window alone, whatever the fourth entry holds.  The witness
  is a sector whose fourth entry (offset 494) starts at sector 2048 and has 204800
  sectors.
\<close>

theorem get_partition_fourth_slot:
  assumes "0 \<le> sys_open e (trace st) name"
    and "sys_read e (trace st @ [Ev_open name]) (sys_open e (trace st) name) = (512, mbr)"
    and "mbr ! 510 = 0x55" and "mbr ! 511 = 0xAA"
  shows "get_partition e st name 4 =
     Return (- 1) (st\<lparr>trace := trace st @ [Ev_open name, Ev_read (sys_open e (trace st) name),
                      Ev_stderr Extended_partitions,
                      Ev_close (sys_open e (trace st) name)]\<rparr>)"
  using assms by (simp add: get_partition_def emit_def Let_def)

theorem get_partition_fourth_slot_witness:
  "le32 (sector_of 4 (entry_of [0x00, 0x08, 0x00, 0x00] [0x00, 0x20, 0x03, 0x00])) (446 + 3 * 16 + 8) = 2048
   \<and> le32 (sector_of 4 (entry_of [0x00, 0x08, 0x00, 0x00] [0x00, 0x20, 0x03, 0x00])) (446 + 3 * 16 + 12) = 204800
   \<and> get_partition
        (test_env (sector_of 4 (entry_of [0x00, 0x08, 0x00, 0x00] [0x00, 0x20, 0x03, 0x00])) ''4'')
        start_state ''disk.img'' 4
      = Return (- 1) (start_state\<lparr>trace :=
          [Ev_open ''disk.img'', Ev_read 3, Ev_stderr Extended_partitions, Ev_close 3]\<rparr>)"
  using get_partition_fourth_slot
    [of "test_env (sector_of 4 (entry_of [0x00, 0x08, 0x00, 0x00] [0x00, 0x20, 0x03, 0x00])) ''4''"
        start_state "''disk.img''"
        "sector_of 4 (entry_of [0x00, 0x08, 0x00, 0x00] [0x00, 0x20, 0x03, 0x00])"]
  by (simp add: test_env_def start_state_def sector_of_def entry_of_def le32_def nth_append)

text \<open>
  C2 (the code departs from the claim).  The claim asks for the exact products
  \<open>L * 512\<close> and \<open>S * 512\<close> for all 32-bit \<open>L\<close> and \<open>S\<close>.  The source multiplies in
  \<open>uint32_t\<close>, so what it stores in the 64-bit variables is each product modulo
  \<open>2 ^ 32\<close>; only the end is an exact sum.  The witness has start sector \<open>0x800000\<close> and
  \<open>0x800001\<close> sectors: the window is base 0, size 512, end 512 instead of base
  4294967296 and size 4294967808.
\<close>

theorem get_partition_window:
  assumes "0 \<le> sys_open e (trace st) name"
    and "sys_read e (trace st @ [Ev_open name]) (sys_open e (trace st) name) = (512, mbr)"
    and "mbr ! 510 = 0x55" and "mbr ! 511 = 0xAA"
    and "1 \<le> n" and "n < 4"
    and "le32 mbr (nat (446 + (n - 1) * 16) + 8) = L"
    and "le32 mbr (nat (446 + (n - 1) * 16) + 12) = S"
    and "L \<noteq> 0" and "S \<noteq> 0"
  shows "\<exists>st'. get_partition e st name n = Return 0 st' \<and>
           uint (partition_base_bytes st') = (uint L * 512) mod 2 ^ 32 \<and>
           uint (partition_size_bytes st') = (uint S * 512) mod 2 ^ 32 \<and>
           uint (partition_end_bytes st') =
             uint (partition_base_bytes st') + uint (partition_size_bytes st')"
  unfolding get_partition_primary [OF assms]
  by (simp add: uint_widen uint_times_512 uint_window_end)

theorem get_partition_window_witness:
  "le32 (sector_of 1 (entry_of [0x00, 0x00, 0x80, 0x00] [0x01, 0x00, 0x80, 0x00])) (446 + 8) = 0x800000
   \<and> le32 (sector_of 1 (entry_of [0x00, 0x00, 0x80, 0x00] [0x01, 0x00, 0x80, 0x00])) (446 + 12) = 0x800001
   \<and> (\<exists>st'. get_partition
        (test_env (sector_of 1 (entry_of [0x00, 0x00, 0x80, 0x00] [0x01, 0x00, 0x80, 0x00])) ''1'')
        start_state ''disk.img'' 1 = Return 0 st' \<and>
        uint (partition_base_bytes st') = 0 \<and>
        uint (partition_size_bytes st') = 512 \<and>
        uint (partition_end_bytes st') = 512)"
  using get_partition_window
    [of "test_env (sector_of 1 (entry_of [0x00, 0x00, 0x80, 0x00] [0x01, 0x00, 0x80, 0x00])) ''1''"
        start_state "''disk.img''"
        "sector_of 1 (entry_of [0x00, 0x00, 0x80, 0x00] [0x01, 0x00, 0x80, 0x00])"
        1 "0x800000" "0x800001"]
  by (fastforce simp: test_env_def start_state_def sector_of_def entry_of_def le32_def nth_append)

text \<open>
  C5.  With a full 512-byte read, partition resolution fails whenever the bytes at
  offsets 510 and 511 are not \<open>0x55\<close>, \<open>0xAA\<close>, and whenever the start sector or the
  sector count of the selected entry is zero: \<open>get_partition\<close> returns \<open>-1\<close>, leaves
  the window as it was and prints no ``partition detected'' line, and the second half of
  \<open>init\<close>, which made the call, ends the process in \<open>abort()\<close>.
\<close>

theorem get_partition_rejects:
  assumes rd: "sys_read e (trace st @ [Ev_open name]) (sys_open e (trace st) name) = (512, mbr)"
    and n: "1 \<le> n"
    and bad: "(mbr ! 510 \<noteq> 0x55 \<or> mbr ! 511 \<noteq> 0xAA) \<or>
         le32 mbr (nat (446 + (n - 1) * 16) + 8) = 0 \<or>
         le32 mbr (nat (446 + (n - 1) * 16) + 12) = 0"
  shows "\<exists>st'. get_partition e st name n = Return (- 1) st' \<and>
           partition_base_bytes st' = partition_base_bytes st \<and>
           partition_size_bytes st' = partition_size_bytes st \<and>
           partition_end_bytes st' = partition_end_bytes st \<and>
           (\<forall>b s. Ev_stderr (Partition_detected b s) \<notin> set (trace st'))
             = (\<forall>b s. Ev_stderr (Partition_detected b s) \<notin> set (trace st)) \<and>
           (\<forall>st0 s. n \<le> 8 \<and> getenv e (trace st0) ''P_NUM'' = Some s \<and> atoi e s = n \<and>
                st = emit (Ev_getenv ''P_NUM'') st0 \<longrightarrow>
              init_partition e st0 name = Abort (emit (Ev_stderr Failed_to_get_partition) st'))"
proof -
  from rd n bad have "\<exists>st'. get_partition e st name n = Return (- 1) st' \<and>
      partition_base_bytes st' = partition_base_bytes st \<and>
      partition_size_bytes st' = partition_size_bytes st \<and>
      partition_end_bytes st' = partition_end_bytes st \<and>
      (\<forall>b s. Ev_stderr (Partition_detected b s) \<notin> set (trace st'))
         = (\<forall>b s. Ev_stderr (Partition_detected b s) \<notin> set (trace st))"
    by (auto simp: get_partition_def emit_def Let_def)
  then obtain st' where gp: "get_partition e st name n = Return (- 1) st'"
    and w: "partition_base_bytes st' = partition_base_bytes st"
      "partition_size_bytes st' = partition_size_bytes st"
      "partition_end_bytes st' = partition_end_bytes st"
      "(\<forall>b s. Ev_stderr (Partition_detected b s) \<notin> set (trace st'))
         = (\<forall>b s. Ev_stderr (Partition_detected b s) \<notin> set (trace st))"
    by blast
  have "init_partition e st0 name = Abort (emit (Ev_stderr Failed_to_get_partition) st')"
    if "n \<le> 8 \<and> getenv e (trace st0) ''P_NUM'' = Some s \<and> atoi e s = n \<and>
        st = emit (Ev_getenv ''P_NUM'') st0" for st0 s
    using that n gp by (simp add: init_partition_def Let_def)
  with gp w show ?thesis by blast
qed

theorem get_partition_rejects_witness:
  "sys_read (test_env (spec_sector[511 := 0]) ''1'')
       (trace (emit (Ev_getenv ''P_NUM'') start_state) @ [Ev_open ''disk.img''])
       (sys_open (test_env (spec_sector[511 := 0]) ''1'')
          (trace (emit (Ev_getenv ''P_NUM'') start_state)) ''disk.img'')
     = (512, spec_sector[511 := 0])
   \<and> (1 :: int) \<le> 1
   \<and> (spec_sector[511 := 0]) ! 511 \<noteq> 0xAA
   \<and> getenv (test_env (spec_sector[511 := 0]) ''1'') (trace start_state) ''P_NUM'' = Some ''1''
   \<and> atoi (test_env (spec_sector[511 := 0]) ''1'') ''1'' = 1
   \<and> (\<exists>st'. get_partition (test_env (spec_sector[511 := 0]) ''1'')
                (emit (Ev_getenv ''P_NUM'') start_state) ''disk.img'' 1
              = Return (- 1) st' \<and>
            partition_base_bytes st' = 0 \<and> partition_size_bytes st' = 0 \<and>
            partition_end_bytes st' = 0 \<and>
            init_partition (test_env (spec_sector[511 := 0]) ''1'') start_state ''disk.img''
              = Abort (emit (Ev_stderr Failed_to_get_partition) st'))"
proof -
  let ?e = "test_env (spec_sector[511 := 0]) ''1''"
  let ?st = "emit (Ev_getenv ''P_NUM'') start_state"
  have rd: "sys_read ?e (trace ?st @ [Ev_open ''disk.img''])
       (sys_open ?e (trace ?st) ''disk.img'') = (512, spec_sector[511 := 0])"
    by (simp add: test_env_def)
  have sig: "(spec_sector[511 := 0]) ! 511 \<noteq> 0xAA"
    by (simp add: spec_sector_def sector_of_def entry_of_def)
  have env: "getenv ?e (trace start_state) ''P_NUM'' = Some ''1''" "atoi ?e ''1'' = 1"
    by (simp_all add: test_env_def)
  have z: "partition_base_bytes ?st = 0" "partition_size_bytes ?st = 0"
    "partition_end_bytes ?st = 0"
    by (simp_all add: emit_def start_state_def)
  from get_partition_rejects [OF rd, of 1] sig
  obtain st' where "get_partition ?e ?st ''disk.img'' 1 = Return (- 1) st'"
    and "partition_base_bytes st' = partition_base_bytes ?st"
    and "partition_size_bytes st' = partition_size_bytes ?st"
    and "partition_end_bytes st' = partition_end_bytes ?st"
    and "\<forall>st0 s. (1 :: int) \<le> 8 \<and> getenv ?e (trace st0) ''P_NUM'' = Some s \<and> atoi ?e s = 1 \<and>
                ?st = emit (Ev_getenv ''P_NUM'') st0 \<longrightarrow>
              init_partition ?e st0 ''disk.img'' = Abort (emit (Ev_stderr Failed_to_get_partition) st')"
    by auto
  with env z show ?thesis
    using rd sig by auto
qed

section \<open>Initialization\<close>

lemma real_seeks_append [simp]: "real_seeks (xs @ ys) = real_seeks xs @ real_seeks ys"
  by (simp add: real_seeks_def)

lemma real_seeks_Nil [simp]: "real_seeks [] = []"
  by (simp add: real_seeks_def)

lemma real_seeks_Cons [simp]:
  "real_seeks (ev # evs) = (if is_real_lseek ev then ev # real_seeks evs else real_seeks evs)"
  by (simp add: real_seeks_def)

lemma dlsym_names_append [simp]: "dlsym_names (xs @ ys) = dlsym_names xs @ dlsym_names ys"
  by (induction xs rule: dlsym_names.induct) simp_all

lemma init_runs_append [simp]: "init_runs (xs @ ys) = init_runs xs + init_runs ys"
  by (simp add: init_runs_def)

lemma init_runs_Nil [simp]: "init_runs [] = 0"
  by (simp add: init_runs_def)

lemma init_runs_Cons [simp]:
  "init_runs (ev # evs) = (if ev = Ev_getenv ''P_FILE'' then 1 else 0) + init_runs evs"
  by (simp add: init_runs_def)

lemma frame_refl [simp]: "frame st st"
  by (auto simp: frame_def)

lemma frame_trans: "frame st st1 \<Longrightarrow> frame st1 st2 \<Longrightarrow> frame st st2"
  by (auto simp: frame_def split: if_splits)

lemma frame_abort: "frame st st1 \<Longrightarrow> abort_frame st1 s \<Longrightarrow> abort_frame st s"
  by (auto simp: frame_def abort_frame_def split: if_splits)

lemma frame_abort_emit: "frame st st1 \<Longrightarrow> abort_frame st (emit (Ev_stderr d) st1)"
  by (auto simp: frame_def abort_frame_def emit_def split: if_splits)

text \<open>A call of \<open>init\<close> that finds the flag set returns at once.\<close>

lemma init_ready: "initialized st \<Longrightarrow> init e st = Return () st"
  by (subst init.simps) simp

text \<open>The stat-by-descriptor override once the flag is set: no recursion is left.\<close>

lemma fxstat_ready:
  assumes "initialized st"
  shows "fxstat e st ver fd buf =
    (case real_fstat st of
       Some f \<Rightarrow>
         (let (ret, buf1) = f (trace st) ver fd buf;
              st3 = emit (Ev_real_fstat ver fd) st
          in Return (fixup_statbuf st3 ret buf1) st3)
     | None \<Rightarrow>
         (case dlsym_fxstat e (trace st) of
            None \<Rightarrow> Abort (emit (Ev_stderr (Error_in_dlsym ''fstat''))
                       (emit (Ev_dlsym ''__fxstat'') st))
          | Some f \<Rightarrow>
              (let st1 = (emit (Ev_dlsym ''__fxstat'') st)\<lparr>real_fstat := Some f\<rparr>;
                   (ret, buf1) = f (trace st1) ver fd buf;
                   st3 = emit (Ev_real_fstat ver fd) st1
               in Return (fixup_statbuf st3 ret buf1) st3)))"
  using assms
  by (subst fxstat.simps) (simp add: init_ready emit_def Let_def split: option.splits)

lemma get_partition_frame:
  assumes "get_partition e st name n = Return r st'"
  shows "frame st st'" and "initialized st' = initialized st"
    and "file_dev st' = file_dev st" and "file_ino st' = file_ino st"
    and "init_runs (trace st') = init_runs (trace st)"
  using assms
  by (auto simp: get_partition_def frame_def emit_def Let_def split: if_splits prod.splits)

lemma get_partition_total:
  "1 \<le> n \<Longrightarrow> \<exists>r st'. get_partition e st name n = Return r st'"
  by (auto simp: get_partition_def emit_def Let_def split: if_splits prod.splits)

lemma get_partition_returns:
  assumes "get_partition e st name n = Return r st'"
  shows "r = 0 \<or> r = - 1"
  using assms
  by (auto simp: get_partition_def emit_def Let_def split: if_splits prod.splits)

lemma init_partition_effect:
  "case init_partition e st filename of
     Return u st' \<Rightarrow> frame st st' \<and> initialized st' = initialized st \<and>
        file_dev st' = file_dev st \<and> file_ino st' = file_ino st \<and> window_ok st' \<and>
        init_runs (trace st') = init_runs (trace st)
   | Abort s \<Rightarrow> abort_frame st s \<and> initialized s = initialized st \<and>
        init_runs (trace s) = init_runs (trace st)
   | Undefined \<Rightarrow> False"
proof -
  let ?st1 = "emit (Ev_getenv ''P_NUM'') st"
  have f1: "frame st ?st1" and i1: "init_runs (trace ?st1) = init_runs (trace st)"
    and in1: "initialized ?st1 = initialized st"
    by (auto simp: frame_def emit_def)
  show ?thesis
  proof (cases "getenv e (trace st) ''P_NUM''")
    case None
    then show ?thesis
      using frame_abort_emit [OF f1] i1 by (simp add: init_partition_def Let_def emit_def)
  next
    case (Some s)
    show ?thesis
    proof (cases "atoi e s < 1 \<or> atoi e s > 8")
      case True
      then show ?thesis
        using Some frame_abort_emit [OF f1] i1 by (simp add: init_partition_def Let_def emit_def)
    next
      case False
      then have "1 \<le> atoi e s" by simp
      from get_partition_total [OF this] obtain r st2
        where gp: "get_partition e ?st1 filename (atoi e s) = Return r st2" by blast
      note fr = get_partition_frame [OF gp]
      have f2: "frame st st2" using f1 fr(1) by (rule frame_trans)
      show ?thesis
      proof (cases "r < 0")
        case True
        then show ?thesis
          using Some False gp frame_abort_emit [OF f2] fr(2,5) i1 in1
          by (simp add: init_partition_def Let_def emit_def)
      next
        case nonneg: False
        with get_partition_returns [OF gp] have "r = 0" by simp
        with gp have "window_ok st2" by (simp add: get_partition_window_ok)
        then show ?thesis
          using nonneg Some False gp f2 fr i1 in1
          by (simp add: init_partition_def Let_def emit_def)
      qed
    qed
  qed
qed

lemma fxstat_effect:
  assumes "initialized st"
  shows "case fxstat e st ver fd buf of
     Return rb st' \<Rightarrow> frame st st' \<and> initialized st' \<and> real_fstat st' \<noteq> None \<and>
        same_window st st' \<and> init_runs (trace st') = init_runs (trace st)
   | Abort s \<Rightarrow> abort_frame st s \<and> initialized s \<and> real_fstat st = None \<and>
        init_runs (trace s) = init_runs (trace st)
   | Undefined \<Rightarrow> False"
  using assms
  by (auto simp: fxstat_ready frame_def abort_frame_def same_window_def emit_def Let_def
           split: option.splits prod.splits)

text \<open>
  What a call of \<open>init\<close> does to the pointers and to the trace, whatever the
  environment answers.
\<close>

lemma init_effect:
  "case init e st of
     Return u st' \<Rightarrow> initialized st' \<and> frame st st' \<and> (initialized st \<longrightarrow> st' = st) \<and>
        (\<not> initialized st \<longrightarrow> window_ok st') \<and>
        init_runs (trace st') = init_runs (trace st) + (if initialized st then 0 else 1)
   | Abort s \<Rightarrow> \<not> initialized st \<and> initialized s \<and> abort_frame st s \<and>
        init_runs (trace s) = init_runs (trace st) + 1
   | Undefined \<Rightarrow> False"
proof (cases "initialized st")
  case True
  then show ?thesis by (simp add: init_ready)
next
  case uninit: False
  let ?st2 = "emit (Ev_getenv ''P_FILE'') (st\<lparr>initialized := True\<rparr>)"
  have f2: "frame st ?st2" and i2: "init_runs (trace ?st2) = init_runs (trace st) + 1"
    by (auto simp: frame_def emit_def)
  show ?thesis
  proof (cases "getenv e (trace st) ''P_FILE''")
    case None
    then have "init e st = Abort (emit (Ev_stderr Filename_not_given) ?st2)"
      using uninit by (subst init.simps) (simp add: Let_def)
    then show ?thesis
      using uninit frame_abort_emit [OF f2] i2 by (simp add: emit_def)
  next
    case (Some fn)
    let ?fd = "sys_open e (trace ?st2) fn"
    let ?st3 = "emit (Ev_open fn) ?st2"
    have f3: "frame st ?st3" and i3: "init_runs (trace ?st3) = init_runs (trace st) + 1"
      and in3: "initialized ?st3"
      by (auto simp: frame_def emit_def)
    show ?thesis
    proof (cases "?fd < 0")
      case True
      then have "init e st = Abort (emit (Ev_stderr (Failed_to_open fn)) ?st3)"
        using uninit Some by (subst init.simps) (simp add: Let_def)
      then show ?thesis
        using uninit frame_abort_emit [OF f3] i3 by (simp add: emit_def)
    next
      case opened: False
      have unfold: "init e st =
        (case fxstat e ?st3 (stat_ver e) ?fd (stack_buf e) of
           Abort s \<Rightarrow> Abort s
         | Undefined \<Rightarrow> Undefined
         | Return (ret, buf) st4 \<Rightarrow>
             if ret < 0 then Abort (emit (Ev_stderr Error_in_stat) st4)
             else init_partition e
                    ((emit (Ev_close ?fd) st4)\<lparr>file_dev := st_dev buf, file_ino := st_ino buf\<rparr>)
                    fn)"
        using uninit Some opened by (subst init.simps) (simp add: Let_def)
      note fx = fxstat_effect
        [where e = e and ver = "stat_ver e" and fd = ?fd and buf = "stack_buf e", OF in3]
      show ?thesis
      proof (cases "fxstat e ?st3 (stat_ver e) ?fd (stack_buf e)")
        case Undefined
        with fx show ?thesis by simp
      next
        case (Abort s)
        with fx have "abort_frame ?st3 s" and "init_runs (trace s) = init_runs (trace ?st3)"
          and "initialized s"
          by simp_all
        then show ?thesis
          using uninit unfold Abort frame_abort [OF f3] i3 by simp
      next
        case (Return rb st4)
        obtain ret buf where rb: "rb = (ret, buf)" by (cases rb)
        from fx Return have f4: "frame ?st3 st4" and in4: "initialized st4"
          and i4: "init_runs (trace st4) = init_runs (trace ?st3)"
          by simp_all
        have f4': "frame st st4" using f3 f4 by (rule frame_trans)
        show ?thesis
        proof (cases "ret < 0")
          case True
          then have "init e st = Abort (emit (Ev_stderr Error_in_stat) st4)"
            using unfold Return rb by simp
          then show ?thesis
            using uninit frame_abort_emit [OF f4'] i4 i3 in4 by (simp add: emit_def)
        next
          case False
          let ?st5 = "(emit (Ev_close ?fd) st4)\<lparr>file_dev := st_dev buf, file_ino := st_ino buf\<rparr>"
          have f5: "frame st4 ?st5" and i5: "init_runs (trace ?st5) = init_runs (trace st4)"
            and in5: "initialized ?st5"
            using in4 by (auto simp: frame_def emit_def)
          have f5': "frame st ?st5" using f4' f5 by (rule frame_trans)
          have u: "init e st = init_partition e ?st5 fn"
            using unfold Return rb False by simp
          note ip = init_partition_effect [where e = e and st = ?st5 and filename = fn]
          show ?thesis
          proof (cases "init_partition e ?st5 fn")
            case Undefined
            with ip show ?thesis by simp
          next
            case (Abort s)
            with ip have "abort_frame ?st5 s" "init_runs (trace s) = init_runs (trace ?st5)"
              "initialized s = initialized ?st5"
              by simp_all
            then show ?thesis
              using uninit u Abort frame_abort [OF f5'] i5 i4 i3 in5 by simp
          next
            case (Return u' st')
            with ip have "frame ?st5 st'" "initialized st' = initialized ?st5"
              "init_runs (trace st') = init_runs (trace ?st5)" "window_ok st'"
              by simp_all
            then show ?thesis
              using uninit u Return frame_trans [OF f5'] in5 i5 i4 i3 by simp
          qed
        qed
      qed
    qed
  qed
qed

text \<open>
  C10.  The flag is set before any work of \<open>init\<close>.  A call of \<open>init\<close> that finds
  the flag set returns at once and changes nothing.  The stat-by-descriptor override,
  called while the flag is set (as the \<open>fstat\<close> of the identity capture calls it, also
  when it first has to look up its real operation and so calls \<open>init\<close> itself), never
  starts the work of \<open>init\<close>.  A call of \<open>init\<close> that finds the flag clear starts
  that work exactly once, whether it returns or ends in \<open>abort()\<close>, and the flag is
  set in the state it ends in.
\<close>

theorem init_not_reentered:
  "(initialized st \<longrightarrow> init e st = Return () st)
   \<and> (initialized st \<longrightarrow>
        (case fxstat e st ver fd buf of
           Return rb st' \<Rightarrow> initialized st' \<and> init_runs (trace st') = init_runs (trace st)
         | Abort s \<Rightarrow> init_runs (trace s) = init_runs (trace st)
         | Undefined \<Rightarrow> False))
   \<and> (\<not> initialized st \<longrightarrow>
        (case init e st of
           Return u st' \<Rightarrow> initialized st' \<and> init_runs (trace st') = init_runs (trace st) + 1
         | Abort s \<Rightarrow> initialized s \<and> init_runs (trace s) = init_runs (trace st) + 1
         | Undefined \<Rightarrow> False))"
proof (intro conjI impI)
  assume "initialized st"
  then show "init e st = Return () st" by (rule init_ready)
next
  assume "initialized st"
  from fxstat_effect [where e = e and ver = ver and fd = fd and buf = buf, OF this]
  show "case fxstat e st ver fd buf of
           Return rb st' \<Rightarrow> initialized st' \<and> init_runs (trace st') = init_runs (trace st)
         | Abort s \<Rightarrow> init_runs (trace s) = init_runs (trace st)
         | Undefined \<Rightarrow> False"
    by (simp split: outcome.splits)
next
  assume "\<not> initialized st"
  with init_effect [where e = e and st = st]
  show "case init e st of
           Return u st' \<Rightarrow> initialized st' \<and> init_runs (trace st') = init_runs (trace st) + 1
         | Abort s \<Rightarrow> initialized s \<and> init_runs (trace s) = init_runs (trace st) + 1
         | Undefined \<Rightarrow> False"
    by (simp split: outcome.splits)
qed

text \<open>
  The scenario of the specification, run from the start: the nested override resolves
  \<open>__fxstat\<close> inside \<open>init\<close>, and the window and the identity are as expected.
\<close>

lemma init_spec_scenario:
  "init (test_env spec_sector ''1'') start_state =
     Return () (ready_state\<lparr>real_lseek := None, real_stat := None,
        trace := [Ev_getenv ''P_FILE'', Ev_open ''disk.img'', Ev_dlsym ''__fxstat'',
          Ev_real_fstat 1 3, Ev_close 3, Ev_getenv ''P_NUM'', Ev_open ''disk.img'', Ev_read 3,
          Ev_stderr (Partition_detected 1048576 104857600), Ev_close 3]\<rparr>)"
  by (simp add: init.simps fxstat.simps init_partition_def get_partition_def test_env_def
        start_state_def ready_state_def spec_sector_def emit_def sector_of_def entry_of_def
        le32_def nth_append image_fxstat_def image_stat_def fixup_statbuf_def S_ISREG_def)

theorem init_not_reentered_witness:
  "\<not> initialized start_state
   \<and> (\<exists>s. init (test_env spec_sector ''1'') start_state = Return () s
         \<and> dlsym_names (trace s) = [''__fxstat'']
         \<and> initialized s \<and> init_runs (trace s) = init_runs (trace start_state) + 1)"
proof -
  have un: "\<not> initialized start_state" by (simp add: start_state_def)
  from init_not_reentered [where st = start_state and e = "test_env spec_sector ''1''"] un
  have "case init (test_env spec_sector ''1'') start_state of
           Return u st' \<Rightarrow> initialized st' \<and> init_runs (trace st') = init_runs (trace start_state) + 1
         | Abort s \<Rightarrow> initialized s \<and> init_runs (trace s) = init_runs (trace start_state) + 1
         | Undefined \<Rightarrow> False"
    by simp
  then show ?thesis
    using un by (simp add: init_spec_scenario)
qed


section \<open>Properties of the seek override\<close>

subsection \<open>Signed 64-bit addition\<close>

lemma sint_add_exact:
  fixes a b :: off_t
  assumes "- (2 ^ 63) \<le> sint a + sint b" and "sint a + sint b < 2 ^ 63"
  shows "sint (a + b) = sint a + sint b"
  using assms by (simp add: sint_word_add signed_take_bit_int_eq_self)


subsection \<open>The window and the switch\<close>


lemma window_base_le_end:
  assumes "window_ok st"
  shows "partition_base_bytes st \<le>s partition_end_bytes st" and "0 \<le>s partition_end_bytes st"
  using assms by (simp_all add: window_ok_def word_sle_eq)

text \<open>The override once its pointer is resolved.\<close>

lemma lseek_ready:
  assumes "real_lseek st = Some f"
  shows "lseek e st fd offset whence =
    (case lseek_switch st offset whence of
       None \<Rightarrow> Return (- 1) (st\<lparr>errno := EINVAL\<rparr>)
     | Some (offset1, whence1) \<Rightarrow>
         let ret = f (trace st) fd offset1 whence1;
             st3 = emit (Ev_real_lseek fd offset1 whence1) st
         in if ret <s 0 then Return ret st3
            else if partition_base_bytes st \<le>s ret then Return (ret - partition_base_bytes st) st3
            else Abort (emit (Ev_stderr (Invalid_location ret)) st3))"
  using assms by (simp add: lseek_def emit_def Let_def split: option.splits)



lemma switch_set_fits:
  assumes "window_ok st" and "0 \<le>s X" and "sint X + sint (partition_base_bytes st) < 2 ^ 63"
  shows "\<exists>a. lseek_switch st X SEEK_SET = Some (a, SEEK_SET) \<and> partition_base_bytes st \<le>s a"
proof -
  let ?b = "partition_base_bytes st"
  have b: "0 \<le> sint ?b" using assms(1) by (simp add: window_ok_def)
  have x: "0 \<le> sint X" using assms(2) by (simp add: word_sle_eq)
  have s: "sint (X + ?b) = sint X + sint ?b"
    using x b assms(3) by (intro sint_add_exact) simp_all
  show ?thesis
  proof (cases "partition_end_bytes st <s X + ?b")
    case True
    then show ?thesis
      using window_base_le_end(1) [OF assms(1)] by (simp add: lseek_switch_def)
  next
    case False
    then show ?thesis
      using s x by (simp add: lseek_switch_def word_sle_eq)
  qed
qed

lemma switch_set_negative:
  assumes "window_ok st" and "X <s 0"
  shows "lseek_switch st X SEEK_SET = Some (X + partition_base_bytes st, SEEK_SET)"
    and "X + partition_base_bytes st <s partition_base_bytes st"
proof -
  let ?b = "partition_base_bytes st"
  have b: "0 \<le> sint ?b" and sz: "0 \<le> sint (partition_size_bytes st)"
    and e: "sint (partition_end_bytes st) = sint ?b + sint (partition_size_bytes st)"
    using assms(1) by (simp_all add: window_ok_def)
  have x: "sint X < 0" using assms(2) by (simp add: word_sless_alt)
  have "- (2 ^ 63) \<le> sint X" using sint_ge [of X] by simp
  moreover have "sint ?b < 2 ^ 63" using sint_lt [of ?b] by simp
  ultimately have s: "sint (X + ?b) = sint X + sint ?b"
    using x b by (intro sint_add_exact) simp_all
  show "X + ?b <s ?b" using s x by (simp add: word_sless_alt)
  show "lseek_switch st X SEEK_SET = Some (X + ?b, SEEK_SET)"
    using s x sz e by (simp add: lseek_switch_def word_sless_alt)
qed


lemma ready_state_facts:
  "real_lseek ready_state = Some ideal_lseek" "window_ok ready_state"
  "partition_base_bytes ready_state = 1048576" "partition_size_bytes ready_state = 104857600"
  "partition_end_bytes ready_state = 105906176" "trace ready_state = []"
  by (simp_all add: ready_state_def window_ok_def)



text \<open>
  C6 (corrected).  The claim says that the offset handed to the real seek on the
  absolute-from-start and absolute-from-end paths is never below the base, so that the
  branch that ends the process cannot be reached.  The source clamps from above only:
  with base 1048576, an absolute-from-start seek to \<open>-1\<close> hands 1048575 to the real
  seek, a real seek that succeeds there returns a position below the base, and the
  override ends in \<open>abort()\<close>; and a seek to the largest \<open>off_t\<close> hands on an offset
  that has wrapped around to a negative value.
\<close>

theorem lseek_below_base_counterexample:
  "real_lseek ready_state = Some ideal_lseek \<and> window_ok ready_state
   \<and> partition_base_bytes ready_state = 1048576
   \<and> lseek_switch ready_state (- 1) SEEK_SET = Some (1048575, SEEK_SET)
   \<and> (1048575 :: off_t) <s 1048576
   \<and> ideal_lseek (trace ready_state) 3 1048575 SEEK_SET = 1048575
   \<and> lseek (test_env spec_sector ''1'') ready_state 3 (- 1) SEEK_SET
       = Abort (emit (Ev_stderr (Invalid_location 1048575))
                 (emit (Ev_real_lseek 3 1048575 SEEK_SET) ready_state))
   \<and> lseek_switch ready_state 0x7FFFFFFFFFFFFFFF SEEK_SET = Some (0x80000000000FFFFF, SEEK_SET)
   \<and> (0x80000000000FFFFF :: off_t) <s 1048576"
  by (simp add: ready_state_facts lseek_ready [OF ready_state_facts(1)] lseek_switch_def
        SEEK_SET_def ideal_lseek_def word_sless_alt word_sle_eq)

text \<open>
  C6 as amended.  With the pointer resolved and a well-formed window: the
  absolute-from-end path hands on the end of the window, which is not below the base;
  the absolute-from-start path hands on an offset that is not below the base whenever
  \<open>X\<close> is not negative and \<open>base + X\<close> fits in \<open>off_t\<close>; for a negative \<open>X\<close> it
  hands on \<open>base + X\<close>, which is below the base; and on every path, whenever the real
  seek succeeds with a result below the base, the override ends the process instead of
  returning a position.
\<close>

theorem lseek_below_base:
  assumes ready: "real_lseek st = Some f"
    and win: "window_ok st"
  shows "(whence = SEEK_END \<longrightarrow>
            lseek_switch st X whence = Some (partition_end_bytes st, SEEK_SET) \<and>
            partition_base_bytes st \<le>s partition_end_bytes st)
       \<and> (whence = SEEK_SET \<and> 0 \<le>s X \<and> sint X + sint (partition_base_bytes st) < 2 ^ 63 \<longrightarrow>
            (\<exists>a. lseek_switch st X whence = Some (a, SEEK_SET) \<and> partition_base_bytes st \<le>s a))
       \<and> (whence = SEEK_SET \<and> X <s 0 \<longrightarrow>
            lseek_switch st X whence = Some (X + partition_base_bytes st, SEEK_SET) \<and>
            X + partition_base_bytes st <s partition_base_bytes st)
       \<and> (\<forall>a w. lseek_switch st X whence = Some (a, w) \<and>
              0 \<le>s f (trace st) fd a w \<and> f (trace st) fd a w <s partition_base_bytes st \<longrightarrow>
              lseek e st fd X whence =
                Abort (emit (Ev_stderr (Invalid_location (f (trace st) fd a w)))
                        (emit (Ev_real_lseek fd a w) st)))"
proof (intro conjI impI allI)
  assume "whence = SEEK_END"
  then show "lseek_switch st X whence = Some (partition_end_bytes st, SEEK_SET)"
    by (simp add: lseek_switch_def SEEK_SET_def SEEK_END_def SEEK_CUR_def)
next
  show "partition_base_bytes st \<le>s partition_end_bytes st"
    by (rule window_base_le_end(1) [OF win])
next
  assume "whence = SEEK_SET \<and> 0 \<le>s X \<and> sint X + sint (partition_base_bytes st) < 2 ^ 63"
  then show "\<exists>a. lseek_switch st X whence = Some (a, SEEK_SET) \<and> partition_base_bytes st \<le>s a"
    using switch_set_fits [OF win, of X] by simp
next
  assume "whence = SEEK_SET \<and> X <s 0"
  then show "lseek_switch st X whence = Some (X + partition_base_bytes st, SEEK_SET)"
    using switch_set_negative(1) [OF win, of X] by simp
next
  assume "whence = SEEK_SET \<and> X <s 0"
  then show "X + partition_base_bytes st <s partition_base_bytes st"
    using switch_set_negative(2) [OF win, of X] by simp
next
  fix a w
  assume h: "lseek_switch st X whence = Some (a, w) \<and>
              0 \<le>s f (trace st) fd a w \<and> f (trace st) fd a w <s partition_base_bytes st"
  then have "\<not> f (trace st) fd a w <s 0" "\<not> partition_base_bytes st \<le>s f (trace st) fd a w"
    by (simp_all add: word_sless_alt word_sle_eq)
  with h show "lseek e st fd X whence =
                Abort (emit (Ev_stderr (Invalid_location (f (trace st) fd a w)))
                        (emit (Ev_real_lseek fd a w) st))"
    by (simp add: lseek_ready [OF ready] Let_def)
qed

theorem lseek_below_base_witness:
  "lseek_switch ready_state 12345 SEEK_END = Some (partition_end_bytes ready_state, SEEK_SET)
   \<and> partition_base_bytes ready_state \<le>s partition_end_bytes ready_state
   \<and> (\<exists>a. lseek_switch ready_state 5 SEEK_SET = Some (a, SEEK_SET)
          \<and> partition_base_bytes ready_state \<le>s a)
   \<and> lseek_switch ready_state (- 1) SEEK_SET
        = Some (- 1 + partition_base_bytes ready_state, SEEK_SET)
   \<and> - 1 + partition_base_bytes ready_state <s partition_base_bytes ready_state
   \<and> lseek (test_env spec_sector ''1'') ready_state 3 (- 1) SEEK_SET
        = Abort (emit (Ev_stderr (Invalid_location 1048575))
                  (emit (Ev_real_lseek 3 1048575 SEEK_SET) ready_state))"
proof -
  note th = lseek_below_base [OF ready_state_facts(1,2)]
  have h2: "(0 :: off_t) \<le>s 5 \<and> sint (5 :: off_t) + sint (partition_base_bytes ready_state) < 2 ^ 63"
    and h3: "(- 1 :: off_t) <s 0"
    by (simp_all add: ready_state_facts word_sle_eq word_sless_alt)
  have h4: "lseek_switch ready_state (- 1) SEEK_SET = Some (1048575, SEEK_SET) \<and>
      0 \<le>s ideal_lseek (trace ready_state) 3 1048575 SEEK_SET \<and>
      ideal_lseek (trace ready_state) 3 1048575 SEEK_SET <s partition_base_bytes ready_state"
    by (simp add: ready_state_facts lseek_switch_def SEEK_SET_def ideal_lseek_def
          word_sless_alt word_sle_eq)
  have i: "ideal_lseek (trace ready_state) 3 1048575 SEEK_SET = 1048575"
    by (simp add: ideal_lseek_def word_sless_alt)
  from th [where whence = SEEK_END and X = 12345]
  have a1: "lseek_switch ready_state 12345 SEEK_END = Some (partition_end_bytes ready_state, SEEK_SET)
     \<and> partition_base_bytes ready_state \<le>s partition_end_bytes ready_state"
    by simp
  from th [where whence = SEEK_SET and X = 5] h2
  have a2: "\<exists>a. lseek_switch ready_state 5 SEEK_SET = Some (a, SEEK_SET)
          \<and> partition_base_bytes ready_state \<le>s a"
    by simp
  from th [where whence = SEEK_SET and X = "- 1"] h3
  have a3: "lseek_switch ready_state (- 1) SEEK_SET
        = Some (- 1 + partition_base_bytes ready_state, SEEK_SET)
     \<and> - 1 + partition_base_bytes ready_state <s partition_base_bytes ready_state"
    by simp
  from th [where whence = SEEK_SET and X = "- 1" and fd = 3 and e = "test_env spec_sector ''1''"] h4
  have a4: "lseek (test_env spec_sector ''1'') ready_state 3 (- 1) SEEK_SET
        = Abort (emit (Ev_stderr (Invalid_location 1048575))
                  (emit (Ev_real_lseek 3 1048575 SEEK_SET) ready_state))"
    using i by metis
  show ?thesis using a1 a2 a3 a4 by simp
qed

text \<open>
  C8.  For a whence that is none of \<open>SEEK_SET\<close>, \<open>SEEK_CUR\<close> and \<open>SEEK_END\<close>: once
  the pointer is resolved, the override returns \<open>-1\<close>, sets \<open>errno\<close> to \<open>EINVAL\<close> and
  changes nothing else, so the trace gains no call at all.  On a first call it resolves
  the pointer and runs \<open>init\<close> first; if that ends the process, it does so without a
  call of the real seek, and otherwise the override again returns \<open>-1\<close> with
  \<open>EINVAL\<close> and without a call of the real seek.
\<close>

theorem lseek_invalid_whence:
  assumes "whence \<noteq> SEEK_SET" and "whence \<noteq> SEEK_CUR" and "whence \<noteq> SEEK_END"
  shows "(real_lseek st \<noteq> None \<longrightarrow>
            lseek e st fd offset whence = Return (- 1) (st\<lparr>errno := EINVAL\<rparr>))
       \<and> (case lseek e st fd offset whence of
             Return r st' \<Rightarrow> r = - 1 \<and> errno st' = EINVAL \<and>
               real_seeks (trace st') = real_seeks (trace st)
           | Abort s \<Rightarrow> real_lseek st = None \<and> real_seeks (trace s) = real_seeks (trace st)
           | Undefined \<Rightarrow> False)"
proof -
  have sw: "lseek_switch s offset whence = None" for s
    using assms by (simp add: lseek_switch_def)
  show ?thesis
  proof (cases "real_lseek st")
    case (Some f)
    then show ?thesis by (simp add: lseek_ready [OF Some] sw)
  next
    case None
    let ?st1 = "(emit (Ev_dlsym ''lseek'') st)\<lparr>real_lseek := dlsym_lseek e (trace st)\<rparr>"
    have tr1: "real_seeks (trace ?st1) = real_seeks (trace st)"
      by (simp add: emit_def)
    show ?thesis
    proof (cases "dlsym_lseek e (trace st)")
      case nosym: None
      then show ?thesis
        using None by (simp add: lseek_def Let_def emit_def)
    next
      case (Some f)
      have unfold: "lseek e st fd offset whence =
        (case init e ?st1 of
           Abort s \<Rightarrow> Abort s
         | Undefined \<Rightarrow> Undefined
         | Return u st2 \<Rightarrow> Return (- 1) (st2\<lparr>errno := EINVAL\<rparr>))"
        using None Some by (simp add: lseek_def Let_def sw split: outcome.splits)
      note ie = init_effect [where e = e and st = ?st1]
      show ?thesis
      proof (cases "init e ?st1")
        case Undefined
        with ie show ?thesis by simp
      next
        case (Abort s)
        with ie have "abort_frame ?st1 s" by simp
        then show ?thesis
          using None unfold Abort tr1 by (simp add: abort_frame_def)
      next
        case (Return u st2)
        with ie have "frame ?st1 st2" by simp
        then show ?thesis
          using None unfold Return tr1 by (simp add: frame_def)
      qed
    qed
  qed
qed

theorem lseek_invalid_whence_witness:
  "(7 :: int) \<noteq> SEEK_SET \<and> 7 \<noteq> SEEK_CUR \<and> 7 \<noteq> SEEK_END
   \<and> real_lseek ready_state \<noteq> None
   \<and> lseek (test_env spec_sector ''1'') ready_state 3 0 7
       = Return (- 1) (ready_state\<lparr>errno := EINVAL\<rparr>)"
proof -
  have h: "(7 :: int) \<noteq> SEEK_SET" "(7 :: int) \<noteq> SEEK_CUR" "(7 :: int) \<noteq> SEEK_END"
    by (simp_all add: SEEK_SET_def SEEK_CUR_def SEEK_END_def)
  have r: "real_lseek ready_state \<noteq> None" by (simp add: ready_state_facts)
  from lseek_invalid_whence [OF h, where st = ready_state and e = "test_env spec_sector ''1''"
      and fd = 3 and offset = 0] r
  have "lseek (test_env spec_sector ''1'') ready_state 3 0 7
       = Return (- 1) (ready_state\<lparr>errno := EINVAL\<rparr>)"
    by blast
  then show ?thesis using h r by simp
qed


section \<open>Properties of the stat and preallocate overrides\<close>

text \<open>The two stat overrides once their pointer is resolved.\<close>

lemma xstat_ready:
  assumes "real_stat st = Some f"
  shows "xstat e st ver path buf =
    (let (ret, buf1) = f (trace st) ver path buf;
         st3 = emit (Ev_real_stat ver path) st
     in Return (fixup_statbuf st3 ret buf1) st3)"
  using assms by (simp add: xstat_def)

lemma fxstat_resolved:
  assumes "real_fstat st = Some f"
  shows "fxstat e st ver fd buf =
    (let (ret, buf1) = f (trace st) ver fd buf;
         st3 = emit (Ev_real_fstat ver fd) st
     in Return (fixup_statbuf st3 ret buf1) st3)"
  using assms by (subst fxstat.simps) simp

lemmas eval_simps = run.simps step.simps forget_def lseek_def xstat_def fallocate_def
  lseek_switch_def init.simps fxstat.simps init_partition_def get_partition_def test_env_def
  start_state_def spec_sector_def emit_def sector_of_def entry_of_def le32_def nth_append
  image_fxstat_def image_xstat_def image_stat_def ideal_lseek_def fixup_statbuf_def S_ISREG_def
  SEEK_SET_def SEEK_END_def SEEK_CUR_def word_sless_alt word_sle_eq Let_def



text \<open>
  C9.  The preallocate override returns 0 for every descriptor, mode, offset and length
  and leaves the state, the trace included, as it was: it allocates nothing, checks
  nothing and calls nothing.
\<close>

theorem fallocate_succeeds: "fallocate e st fd mode offset len = Return 0 st"
  by (simp add: fallocate_def)

section \<open>Properties of sequences of calls\<close>

lemma pointers_kept_refl [simp]: "pointers_kept st st"
  by (simp add: pointers_kept_def)

lemma pointers_kept_trans:
  "pointers_kept st st1 \<Longrightarrow> pointers_kept st1 st2 \<Longrightarrow> pointers_kept st st2"
  by (auto simp: pointers_kept_def)

lemma same_window_refl [simp]: "same_window st st"
  by (simp add: same_window_def)

lemma same_window_trans:
  "same_window st st1 \<Longrightarrow> same_window st1 st2 \<Longrightarrow> same_window st st2"
  by (simp add: same_window_def)

lemma once_runs:
  assumes "resolved_once st"
  shows "init_runs (trace st) + (if initialized st then 0 else 1) = 1"
  using assms by (simp add: resolved_once_def)

subsection \<open>Calls with the pointer resolved\<close>

lemma resolved_once_emit:
  assumes "resolved_once st" and "dlsym_names [ev] = []" and "ev \<noteq> Ev_getenv ''P_FILE''"
  shows "resolved_once (emit ev st)"
  using assms by (simp add: resolved_once_def emit_def)

lemma abort_once_emit:
  assumes "resolved_once st" and "dlsym_names evs = []" and "init_runs evs = 0"
  shows "abort_once (st\<lparr>trace := trace st @ evs\<rparr>)"
  using assms by (simp add: resolved_once_def abort_once_def)

lemma lseek_ready_once:
  assumes ro: "resolved_once st" and f: "real_lseek st = Some f"
  shows "case lseek e st fd offset whence of
     Return r st' \<Rightarrow> resolved_once st' \<and> pointers_kept st st' \<and> same_window st st'
   | Abort s \<Rightarrow> abort_once s
   | Undefined \<Rightarrow> False"
proof (cases "lseek_switch st offset whence")
  case None
  have "resolved_once (st\<lparr>errno := EINVAL\<rparr>)"
    using ro by (simp add: resolved_once_def)
  then show ?thesis
    using None by (simp add: lseek_ready [OF f] pointers_kept_def same_window_def)
next
  case (Some aw)
  obtain a w where aw: "aw = (a, w)" by (cases aw)
  let ?st3 = "emit (Ev_real_lseek fd a w) st"
  have r3: "resolved_once ?st3"
    using ro by (intro resolved_once_emit) simp_all
  have k3: "pointers_kept st ?st3" "same_window st ?st3"
    by (simp_all add: pointers_kept_def same_window_def emit_def)
  have a3: "abort_once (emit (Ev_stderr d) ?st3)" for d
    using abort_once_emit [OF ro, of "[Ev_real_lseek fd a w, Ev_stderr d]"]
    by (simp add: emit_def)
  show ?thesis
    using Some aw r3 k3 a3 by (simp add: lseek_ready [OF f] Let_def)
qed

lemma xstat_ready_once:
  assumes ro: "resolved_once st" and f: "real_stat st = Some f"
  shows "case xstat e st ver path buf of
     Return r st' \<Rightarrow> resolved_once st' \<and> pointers_kept st st' \<and> same_window st st'
   | Abort s \<Rightarrow> abort_once s
   | Undefined \<Rightarrow> False"
proof -
  let ?st3 = "emit (Ev_real_stat ver path) st"
  have r3: "resolved_once ?st3"
    using ro by (intro resolved_once_emit) simp_all
  have k3: "pointers_kept st ?st3" "same_window st ?st3"
    by (simp_all add: pointers_kept_def same_window_def emit_def)
  show ?thesis
    using r3 k3 by (simp add: xstat_ready [OF f] Let_def split: prod.splits)
qed

lemma fxstat_ready_once:
  assumes ro: "resolved_once st" and f: "real_fstat st = Some f"
  shows "case fxstat e st ver fd buf of
     Return r st' \<Rightarrow> resolved_once st' \<and> pointers_kept st st' \<and> same_window st st'
   | Abort s \<Rightarrow> abort_once s
   | Undefined \<Rightarrow> False"
proof -
  let ?st3 = "emit (Ev_real_fstat ver fd) st"
  have r3: "resolved_once ?st3"
    using ro by (intro resolved_once_emit) simp_all
  have k3: "pointers_kept st ?st3" "same_window st ?st3"
    by (simp_all add: pointers_kept_def same_window_def emit_def)
  show ?thesis
    using r3 k3 by (simp add: fxstat_resolved [OF f] Let_def split: prod.splits)
qed


subsection \<open>A lookup and the call of init that follows it\<close>

lemma lseek_lookup_once:
  assumes ro: "resolved_once st" and none: "real_lseek st = None"
  shows "case init e ((emit (Ev_dlsym ''lseek'') st)\<lparr>real_lseek := Some f\<rparr>) of
     Return u st2 \<Rightarrow> resolved_once st2 \<and> real_lseek st2 = Some f \<and> pointers_kept st st2 \<and>
        (initialized st \<longrightarrow> same_window st st2)
   | Abort s \<Rightarrow> abort_once s
   | Undefined \<Rightarrow> False"
proof -
  let ?st1 = "(emit (Ev_dlsym ''lseek'') st)\<lparr>real_lseek := Some f\<rparr>"
  note ie = init_effect [where e = e and st = ?st1]
  from ro none have d: "distinct (dlsym_names (trace st))"
    and l: "''lseek'' \<notin> set (dlsym_names (trace st))"
    and x: "(''__xstat'' \<in> set (dlsym_names (trace st))) = (real_stat st \<noteq> None)"
    and fx: "(''__fxstat'' \<in> set (dlsym_names (trace st))) = (real_fstat st \<noteq> None)"
    by (simp_all add: resolved_once_def)
  have t1: "dlsym_names (trace ?st1) = dlsym_names (trace st) @ [''lseek'']"
    "init_runs (trace ?st1) = init_runs (trace st)" "initialized ?st1 = initialized st"
    "real_fstat ?st1 = real_fstat st" "real_stat ?st1 = real_stat st"
    "real_lseek ?st1 = Some f"
    by (simp_all add: emit_def)
  show ?thesis
  proof (cases "init e ?st1")
    case Undefined
    with ie show ?thesis by simp
  next
    case (Abort s)
    with ie have a: "abort_frame ?st1 s"
      and r: "init_runs (trace s) = init_runs (trace ?st1) + 1" and u: "\<not> initialized ?st1"
      by simp_all
    have "init_runs (trace s) = 1"
      using r u t1 once_runs [OF ro] by simp
    moreover from a have "distinct (dlsym_names (trace s))"
      unfolding abort_frame_def t1
    proof (elim conjE disjE)
      assume "dlsym_names (trace s) = dlsym_names (trace st) @ [''lseek'']"
      then show ?thesis using d l by simp
    next
      assume "dlsym_names (trace s) = (dlsym_names (trace st) @ [''lseek'']) @ [''__fxstat'']"
        and "real_fstat st = None"
      then show ?thesis using d l fx by simp
    qed
    ultimately show ?thesis using Abort by (simp add: abort_once_def)
  next
    case (Return u st2)
    with ie have i2: "initialized st2" and fr: "frame ?st1 st2"
      and same: "initialized ?st1 \<longrightarrow> st2 = ?st1"
      and r: "init_runs (trace st2) = init_runs (trace ?st1) + (if initialized ?st1 then 0 else 1)"
      by simp_all
    from fr t1 have p: "real_lseek st2 = Some f" "real_stat st2 = real_stat st"
      "real_fstat st \<noteq> None \<longrightarrow> real_fstat st2 = real_fstat st"
      and nm: "dlsym_names (trace st2) = (dlsym_names (trace st) @ [''lseek'']) @
          (if real_fstat st = None \<and> real_fstat st2 \<noteq> None then [''__fxstat''] else [])"
      by (simp_all add: frame_def)
    have r2: "init_runs (trace st2) = 1"
      using r t1 once_runs [OF ro] by simp
    have "resolved_once st2"
    proof (cases "real_fstat st = None \<and> real_fstat st2 \<noteq> None")
      case True
      note nm' = nm [unfolded if_P [OF True]]
      from True show ?thesis
        unfolding resolved_once_def nm' using d l x fx p i2 r2 by simp
    next
      case False
      note nm' = nm [unfolded if_not_P [OF False]]
      from False have "real_fstat st2 \<noteq> None \<longleftrightarrow> real_fstat st \<noteq> None"
        using p(3) by auto
      then show ?thesis
        unfolding resolved_once_def nm' using d l x fx p(1,2) i2 r2 by simp
    qed
    moreover have "pointers_kept st st2"
      using p none by (simp add: pointers_kept_def)
    moreover have "initialized st \<longrightarrow> same_window st st2"
      using same t1 by (auto simp: same_window_def emit_def)
    ultimately show ?thesis using Return p by simp
  qed
qed

lemma xstat_lookup_once:
  assumes ro: "resolved_once st" and none: "real_stat st = None"
  shows "case init e ((emit (Ev_dlsym ''__xstat'') st)\<lparr>real_stat := Some f\<rparr>) of
     Return u st2 \<Rightarrow> resolved_once st2 \<and> real_stat st2 = Some f \<and> pointers_kept st st2 \<and>
        (initialized st \<longrightarrow> same_window st st2)
   | Abort s \<Rightarrow> abort_once s
   | Undefined \<Rightarrow> False"
proof -
  let ?st1 = "(emit (Ev_dlsym ''__xstat'') st)\<lparr>real_stat := Some f\<rparr>"
  note ie = init_effect [where e = e and st = ?st1]
  from ro none have d: "distinct (dlsym_names (trace st))"
    and l: "''__xstat'' \<notin> set (dlsym_names (trace st))"
    and x: "(''lseek'' \<in> set (dlsym_names (trace st))) = (real_lseek st \<noteq> None)"
    and fx: "(''__fxstat'' \<in> set (dlsym_names (trace st))) = (real_fstat st \<noteq> None)"
    by (simp_all add: resolved_once_def)
  have t1: "dlsym_names (trace ?st1) = dlsym_names (trace st) @ [''__xstat'']"
    "init_runs (trace ?st1) = init_runs (trace st)" "initialized ?st1 = initialized st"
    "real_fstat ?st1 = real_fstat st" "real_lseek ?st1 = real_lseek st"
    "real_stat ?st1 = Some f"
    by (simp_all add: emit_def)
  show ?thesis
  proof (cases "init e ?st1")
    case Undefined
    with ie show ?thesis by simp
  next
    case (Abort s)
    with ie have a: "abort_frame ?st1 s"
      and r: "init_runs (trace s) = init_runs (trace ?st1) + 1" and u: "\<not> initialized ?st1"
      by simp_all
    have "init_runs (trace s) = 1"
      using r u t1 once_runs [OF ro] by simp
    moreover from a have "distinct (dlsym_names (trace s))"
      unfolding abort_frame_def t1
    proof (elim conjE disjE)
      assume "dlsym_names (trace s) = dlsym_names (trace st) @ [''__xstat'']"
      then show ?thesis using d l by simp
    next
      assume "dlsym_names (trace s) = (dlsym_names (trace st) @ [''__xstat'']) @ [''__fxstat'']"
        and "real_fstat st = None"
      then show ?thesis using d l fx by simp
    qed
    ultimately show ?thesis using Abort by (simp add: abort_once_def)
  next
    case (Return u st2)
    with ie have i2: "initialized st2" and fr: "frame ?st1 st2"
      and same: "initialized ?st1 \<longrightarrow> st2 = ?st1"
      and r: "init_runs (trace st2) = init_runs (trace ?st1) + (if initialized ?st1 then 0 else 1)"
      by simp_all
    from fr t1 have p: "real_stat st2 = Some f" "real_lseek st2 = real_lseek st"
      "real_fstat st \<noteq> None \<longrightarrow> real_fstat st2 = real_fstat st"
      and nm: "dlsym_names (trace st2) = (dlsym_names (trace st) @ [''__xstat'']) @
          (if real_fstat st = None \<and> real_fstat st2 \<noteq> None then [''__fxstat''] else [])"
      by (simp_all add: frame_def)
    have r2: "init_runs (trace st2) = 1"
      using r t1 once_runs [OF ro] by simp
    have "resolved_once st2"
    proof (cases "real_fstat st = None \<and> real_fstat st2 \<noteq> None")
      case True
      note nm' = nm [unfolded if_P [OF True]]
      from True show ?thesis
        unfolding resolved_once_def nm' using d l x fx p i2 r2 by simp
    next
      case False
      note nm' = nm [unfolded if_not_P [OF False]]
      from False have "real_fstat st2 \<noteq> None \<longleftrightarrow> real_fstat st \<noteq> None"
        using p(3) by auto
      then show ?thesis
        unfolding resolved_once_def nm' using d l x fx p(1,2) i2 r2 by simp
    qed
    moreover have "pointers_kept st st2"
      using p none by (simp add: pointers_kept_def)
    moreover have "initialized st \<longrightarrow> same_window st st2"
      using same t1 by (auto simp: same_window_def emit_def)
    ultimately show ?thesis using Return p by simp
  qed
qed

lemma fxstat_lookup_once:
  assumes ro: "resolved_once st" and none: "real_fstat st = None"
  shows "case init e ((emit (Ev_dlsym ''__fxstat'') st)\<lparr>real_fstat := Some f\<rparr>) of
     Return u st2 \<Rightarrow> resolved_once st2 \<and> real_fstat st2 = Some f \<and> pointers_kept st st2 \<and>
        (initialized st \<longrightarrow> same_window st st2)
   | Abort s \<Rightarrow> abort_once s
   | Undefined \<Rightarrow> False"
proof -
  let ?st1 = "(emit (Ev_dlsym ''__fxstat'') st)\<lparr>real_fstat := Some f\<rparr>"
  note ie = init_effect [where e = e and st = ?st1]
  from ro none have d: "distinct (dlsym_names (trace st))"
    and l: "''__fxstat'' \<notin> set (dlsym_names (trace st))"
    and x: "(''__xstat'' \<in> set (dlsym_names (trace st))) = (real_stat st \<noteq> None)"
    and ls: "(''lseek'' \<in> set (dlsym_names (trace st))) = (real_lseek st \<noteq> None)"
    by (simp_all add: resolved_once_def)
  have t1: "dlsym_names (trace ?st1) = dlsym_names (trace st) @ [''__fxstat'']"
    "init_runs (trace ?st1) = init_runs (trace st)" "initialized ?st1 = initialized st"
    "real_fstat ?st1 = Some f" "real_stat ?st1 = real_stat st"
    "real_lseek ?st1 = real_lseek st"
    by (simp_all add: emit_def)
  show ?thesis
  proof (cases "init e ?st1")
    case Undefined
    with ie show ?thesis by simp
  next
    case (Abort s)
    with ie have a: "abort_frame ?st1 s"
      and r: "init_runs (trace s) = init_runs (trace ?st1) + 1" and u: "\<not> initialized ?st1"
      by simp_all
    have "init_runs (trace s) = 1"
      using r u t1 once_runs [OF ro] by simp
    moreover from a have "dlsym_names (trace s) = dlsym_names (trace st) @ [''__fxstat'']"
      by (simp add: abort_frame_def emit_def)
    then have "distinct (dlsym_names (trace s))"
      using d l by simp
    ultimately show ?thesis using Abort by (simp add: abort_once_def)
  next
    case (Return u st2)
    with ie have i2: "initialized st2" and fr: "frame ?st1 st2"
      and same: "initialized ?st1 \<longrightarrow> st2 = ?st1"
      and r: "init_runs (trace st2) = init_runs (trace ?st1) + (if initialized ?st1 then 0 else 1)"
      by simp_all
    from fr t1 have p: "real_fstat st2 = Some f" "real_stat st2 = real_stat st"
      "real_lseek st2 = real_lseek st"
      and nm: "dlsym_names (trace st2) = dlsym_names (trace st) @ [''__fxstat'']"
      by (simp_all add: frame_def)
    have r2: "init_runs (trace st2) = 1"
      using r t1 once_runs [OF ro] by simp
    have "resolved_once st2"
      unfolding resolved_once_def nm using d l x ls p i2 r2 by simp
    moreover have "pointers_kept st st2"
      using p none by (simp add: pointers_kept_def)
    moreover have "initialized st \<longrightarrow> same_window st st2"
      using same t1 by (auto simp: same_window_def emit_def)
    ultimately show ?thesis using Return p by simp
  qed
qed


subsection \<open>A first call is the lookup, init, and then the call with the pointer resolved\<close>

lemma lseek_first_call:
  assumes "real_lseek st = None" and "dlsym_lseek e (trace st) = Some f"
  shows "lseek e st fd offset whence =
    (case init e ((emit (Ev_dlsym ''lseek'') st)\<lparr>real_lseek := Some f\<rparr>) of
       Return u st2 \<Rightarrow> lseek e st2 fd offset whence
     | Abort s \<Rightarrow> Abort s
     | Undefined \<Rightarrow> Undefined)"
proof -
  let ?st1 = "(emit (Ev_dlsym ''lseek'') st)\<lparr>real_lseek := Some f\<rparr>"
  have "real_lseek st2 = Some f" if "init e ?st1 = Return u st2" for u st2
    using init_effect [where e = e and st = ?st1] that by (simp add: frame_def)
  then show ?thesis
    using assms by (simp add: lseek_def Let_def split: outcome.splits)
qed

lemma xstat_first_call:
  assumes "real_stat st = None" and "dlsym_xstat e (trace st) = Some f"
  shows "xstat e st ver path buf =
    (case init e ((emit (Ev_dlsym ''__xstat'') st)\<lparr>real_stat := Some f\<rparr>) of
       Return u st2 \<Rightarrow> xstat e st2 ver path buf
     | Abort s \<Rightarrow> Abort s
     | Undefined \<Rightarrow> Undefined)"
proof -
  let ?st1 = "(emit (Ev_dlsym ''__xstat'') st)\<lparr>real_stat := Some f\<rparr>"
  have "real_stat st2 = Some f" if "init e ?st1 = Return u st2" for u st2
    using init_effect [where e = e and st = ?st1] that by (simp add: frame_def)
  then show ?thesis
    using assms by (simp add: xstat_def Let_def split: outcome.splits)
qed

lemma fxstat_first_call:
  assumes "real_fstat st = None" and "dlsym_fxstat e (trace st) = Some f"
  shows "fxstat e st ver fd buf =
    (case init e ((emit (Ev_dlsym ''__fxstat'') st)\<lparr>real_fstat := Some f\<rparr>) of
       Return u st2 \<Rightarrow> fxstat e st2 ver fd buf
     | Abort s \<Rightarrow> Abort s
     | Undefined \<Rightarrow> Undefined)"
proof -
  let ?st1 = "(emit (Ev_dlsym ''__fxstat'') st)\<lparr>real_fstat := Some f\<rparr>"
  have p: "real_fstat st2 = Some f" if "init e ?st1 = Return u st2" for u st2
    using init_effect [where e = e and st = ?st1] that by (simp add: frame_def)
  have "fxstat e st ver fd buf =
    (case init e ?st1 of
       Return u st2 \<Rightarrow>
         (case real_fstat st2 of
            None \<Rightarrow> Undefined
          | Some f \<Rightarrow>
              let (ret, buf1) = f (trace st2) ver fd buf;
                  st3 = emit (Ev_real_fstat ver fd) st2
              in Return (fixup_statbuf st3 ret buf1) st3)
     | Abort s \<Rightarrow> Abort s
     | Undefined \<Rightarrow> Undefined)"
    using assms by (subst fxstat.simps) (simp add: Let_def split: outcome.splits)
  then show ?thesis
    using p by (simp add: fxstat_resolved split: outcome.splits)
qed

subsection \<open>Every call keeps the invariant\<close>

lemma lseek_once:
  assumes ro: "resolved_once st"
  shows "case lseek e st fd offset whence of
     Return r st' \<Rightarrow> resolved_once st' \<and> pointers_kept st st' \<and>
        (initialized st \<longrightarrow> same_window st st')
   | Abort s \<Rightarrow> abort_once s
   | Undefined \<Rightarrow> False"
proof (cases "real_lseek st")
  case (Some f)
  with lseek_ready_once [OF ro Some, where e = e and fd = fd and offset = offset and whence = whence] show ?thesis
    by (simp split: outcome.splits)
next
  case None
  show ?thesis
  proof (cases "dlsym_lseek e (trace st)")
    case nosym: None
    then show ?thesis
      using ro None by (simp add: lseek_def Let_def emit_def resolved_once_def abort_once_def)
  next
    case (Some f)
    note lk = lseek_lookup_once [OF ro None, where e = e and f = f]
    note eq = lseek_first_call [OF None Some, where fd = fd and offset = offset and whence = whence]
    show ?thesis
    proof (cases "init e ((emit (Ev_dlsym ''lseek'') st)\<lparr>real_lseek := Some f\<rparr>)")
      case Undefined
      with lk show ?thesis by simp
    next
      case (Abort s)
      with lk eq show ?thesis by simp
    next
      case (Return u st2)
      with lk have r2: "resolved_once st2" and f2: "real_lseek st2 = Some f"
        and k2: "pointers_kept st st2" and w2: "initialized st \<longrightarrow> same_window st st2"
        by simp_all
      from lseek_ready_once [OF r2 f2, where e = e and fd = fd and offset = offset and whence = whence] eq Return k2 w2
      show ?thesis
        by (auto split: outcome.splits intro: pointers_kept_trans same_window_trans)
    qed
  qed
qed


lemma xstat_once:
  assumes ro: "resolved_once st"
  shows "case xstat e st ver path buf of
     Return r st' \<Rightarrow> resolved_once st' \<and> pointers_kept st st' \<and>
        (initialized st \<longrightarrow> same_window st st')
   | Abort s \<Rightarrow> abort_once s
   | Undefined \<Rightarrow> False"
proof (cases "real_stat st")
  case (Some f)
  with xstat_ready_once [OF ro Some, where e = e and ver = ver and path = path and buf = buf] show ?thesis
    by (simp split: outcome.splits)
next
  case None
  show ?thesis
  proof (cases "dlsym_xstat e (trace st)")
    case nosym: None
    then show ?thesis
      using ro None by (simp add: xstat_def Let_def emit_def resolved_once_def abort_once_def)
  next
    case (Some f)
    note lk = xstat_lookup_once [OF ro None, where e = e and f = f]
    note eq = xstat_first_call [OF None Some, where ver = ver and path = path and buf = buf]
    show ?thesis
    proof (cases "init e ((emit (Ev_dlsym ''__xstat'') st)\<lparr>real_stat := Some f\<rparr>)")
      case Undefined
      with lk show ?thesis by simp
    next
      case (Abort s)
      with lk eq show ?thesis by simp
    next
      case (Return u st2)
      with lk have r2: "resolved_once st2" and f2: "real_stat st2 = Some f"
        and k2: "pointers_kept st st2" and w2: "initialized st \<longrightarrow> same_window st st2"
        by simp_all
      from xstat_ready_once [OF r2 f2, where e = e and ver = ver and path = path and buf = buf] eq Return k2 w2
      show ?thesis
        by (auto split: outcome.splits intro: pointers_kept_trans same_window_trans)
    qed
  qed
qed

lemma fxstat_once:
  assumes ro: "resolved_once st"
  shows "case fxstat e st ver fd buf of
     Return r st' \<Rightarrow> resolved_once st' \<and> pointers_kept st st' \<and>
        (initialized st \<longrightarrow> same_window st st')
   | Abort s \<Rightarrow> abort_once s
   | Undefined \<Rightarrow> False"
proof (cases "real_fstat st")
  case (Some f)
  with fxstat_ready_once [OF ro Some, where e = e and ver = ver and fd = fd and buf = buf] show ?thesis
    by (simp split: outcome.splits)
next
  case None
  show ?thesis
  proof (cases "dlsym_fxstat e (trace st)")
    case nosym: None
    have "fxstat e st ver fd buf =
        Abort (emit (Ev_stderr (Error_in_dlsym ''fstat''))
                ((emit (Ev_dlsym ''__fxstat'') st)\<lparr>real_fstat := None\<rparr>))"
      using None nosym by (subst fxstat.simps) (simp add: Let_def)
    then show ?thesis
      using ro None by (simp add: emit_def resolved_once_def abort_once_def)
  next
    case (Some f)
    note lk = fxstat_lookup_once [OF ro None, where e = e and f = f]
    note eq = fxstat_first_call [OF None Some, where ver = ver and fd = fd and buf = buf]
    show ?thesis
    proof (cases "init e ((emit (Ev_dlsym ''__fxstat'') st)\<lparr>real_fstat := Some f\<rparr>)")
      case Undefined
      with lk show ?thesis by simp
    next
      case (Abort s)
      with lk eq show ?thesis by simp
    next
      case (Return u st2)
      with lk have r2: "resolved_once st2" and f2: "real_fstat st2 = Some f"
        and k2: "pointers_kept st st2" and w2: "initialized st \<longrightarrow> same_window st st2"
        by simp_all
      from fxstat_ready_once [OF r2 f2, where e = e and ver = ver and fd = fd and buf = buf] eq Return k2 w2
      show ?thesis
        by (auto split: outcome.splits intro: pointers_kept_trans same_window_trans)
    qed
  qed
qed

lemma step_once:
  assumes ro: "resolved_once st"
  shows "case step e st c of
     Return u st' \<Rightarrow> resolved_once st' \<and> pointers_kept st st' \<and>
        (initialized st \<longrightarrow> same_window st st')
   | Abort s \<Rightarrow> abort_once s
   | Undefined \<Rightarrow> False"
proof (cases c)
  case (Call_lseek fd offset whence)
  with lseek_once [OF ro, where e = e and fd = fd and offset = offset and whence = whence] show ?thesis
    by (simp add: forget_def split: outcome.splits)
next
  case (Call_xstat ver path buf)
  with xstat_once [OF ro, where e = e and ver = ver and path = path and buf = buf] show ?thesis
    by (simp add: forget_def split: outcome.splits)
next
  case (Call_fxstat ver fd buf)
  with fxstat_once [OF ro, where e = e and ver = ver and fd = fd and buf = buf] show ?thesis
    by (simp add: forget_def split: outcome.splits)
next
  case (Call_fallocate fd mode offset len)
  with ro show ?thesis
    by (simp add: forget_def fallocate_def)
qed

lemma run_once:
  assumes "resolved_once st"
  shows "case run st cs of
     Return u s \<Rightarrow> resolved_once s
   | Abort s \<Rightarrow> abort_once s
   | Undefined \<Rightarrow> False"
  using assms
proof (induction cs arbitrary: st)
  case Nil
  then show ?case by simp
next
  case (Cons ec cs)
  obtain e c where ec: "ec = (e, c)" by (cases ec)
  note so = step_once [OF Cons.prems, where e = e and c = c]
  show ?case
  proof (cases "step e st c")
    case Undefined
    with so show ?thesis by simp
  next
    case (Abort s)
    with so show ?thesis by (simp add: ec)
  next
    case (Return u st')
    with so have "resolved_once st'" by simp
    from Cons.IH [OF this] Return show ?thesis by (simp add: ec)
  qed
qed

lemma resolved_once_start: "resolved_once start_state"
  by (simp add: resolved_once_def start_state_def)


text \<open>
  C7.  In every run from the start state, whatever the calls and whatever the
  environment answers, no symbol is looked up twice, every pointer is set exactly when
  its symbol was looked up, and the work of \<open>init\<close> has run exactly once as soon as one
  symbol was looked up.  A seek or stat call that finds its pointer unset looks the
  symbol up, then calls \<open>init\<close>, and then behaves as the same call made in the state
  \<open>init\<close> returned, in which the flag and the pointer are set.  From a state between
  two calls, every call of the four keeps the pointers that are set and, once the flag
  is set, the window and the identity.  (The preallocate override has no pointer and
  looks nothing up.)
\<close>

theorem resolution_once:
  "(case run start_state cs of
      Return u s \<Rightarrow> resolved_once s
    | Abort s \<Rightarrow> abort_once s
    | Undefined \<Rightarrow> False)
   \<and> (real_lseek st = None \<and> dlsym_lseek e (trace st) = Some fl \<longrightarrow>
        lseek e st fd offset whence =
          (case init e ((emit (Ev_dlsym ''lseek'') st)\<lparr>real_lseek := Some fl\<rparr>) of
             Return u st2 \<Rightarrow> lseek e st2 fd offset whence
           | Abort s \<Rightarrow> Abort s
           | Undefined \<Rightarrow> Undefined) \<and>
        (\<forall>u st2. init e ((emit (Ev_dlsym ''lseek'') st)\<lparr>real_lseek := Some fl\<rparr>) = Return u st2
           \<longrightarrow> initialized st2 \<and> real_lseek st2 = Some fl))
   \<and> (real_stat st = None \<and> dlsym_xstat e (trace st) = Some fs \<longrightarrow>
        xstat e st ver path buf =
          (case init e ((emit (Ev_dlsym ''__xstat'') st)\<lparr>real_stat := Some fs\<rparr>) of
             Return u st2 \<Rightarrow> xstat e st2 ver path buf
           | Abort s \<Rightarrow> Abort s
           | Undefined \<Rightarrow> Undefined) \<and>
        (\<forall>u st2. init e ((emit (Ev_dlsym ''__xstat'') st)\<lparr>real_stat := Some fs\<rparr>) = Return u st2
           \<longrightarrow> initialized st2 \<and> real_stat st2 = Some fs))
   \<and> (real_fstat st = None \<and> dlsym_fxstat e (trace st) = Some ff \<longrightarrow>
        fxstat e st ver fd buf =
          (case init e ((emit (Ev_dlsym ''__fxstat'') st)\<lparr>real_fstat := Some ff\<rparr>) of
             Return u st2 \<Rightarrow> fxstat e st2 ver fd buf
           | Abort s \<Rightarrow> Abort s
           | Undefined \<Rightarrow> Undefined) \<and>
        (\<forall>u st2. init e ((emit (Ev_dlsym ''__fxstat'') st)\<lparr>real_fstat := Some ff\<rparr>) = Return u st2
           \<longrightarrow> initialized st2 \<and> real_fstat st2 = Some ff))
   \<and> (resolved_once st \<longrightarrow>
        (case step e st c of
           Return u st' \<Rightarrow> resolved_once st' \<and> pointers_kept st st' \<and>
             (initialized st \<longrightarrow> same_window st st')
         | Abort s \<Rightarrow> abort_once s
         | Undefined \<Rightarrow> False))"
proof -
  have init_sets: "initialized st2 \<and> frame st1 st2" if "init e st1 = Return u st2" for st1 u st2
    using init_effect [where e = e and st = st1] that by simp
  have a: "case run start_state cs of
      Return u s \<Rightarrow> resolved_once s
    | Abort s \<Rightarrow> abort_once s
    | Undefined \<Rightarrow> False"
    by (rule run_once [OF resolved_once_start])
  have b: "initialized st2 \<and> real_lseek st2 = Some fl"
    if "init e ((emit (Ev_dlsym ''lseek'') st)\<lparr>real_lseek := Some fl\<rparr>) = Return u st2" for u st2
    using init_sets [OF that] by (simp add: frame_def)
  have c: "initialized st2 \<and> real_stat st2 = Some fs"
    if "init e ((emit (Ev_dlsym ''__xstat'') st)\<lparr>real_stat := Some fs\<rparr>) = Return u st2" for u st2
    using init_sets [OF that] by (simp add: frame_def)
  have d: "initialized st2 \<and> real_fstat st2 = Some ff"
    if "init e ((emit (Ev_dlsym ''__fxstat'') st)\<lparr>real_fstat := Some ff\<rparr>) = Return u st2" for u st2
    using init_sets [OF that] by (simp add: frame_def)
  have b': "real_lseek st = None \<and> dlsym_lseek e (trace st) = Some fl \<longrightarrow>
        lseek e st fd offset whence =
          (case init e ((emit (Ev_dlsym ''lseek'') st)\<lparr>real_lseek := Some fl\<rparr>) of
             Return u st2 \<Rightarrow> lseek e st2 fd offset whence
           | Abort s \<Rightarrow> Abort s
           | Undefined \<Rightarrow> Undefined) \<and>
        (\<forall>u st2. init e ((emit (Ev_dlsym ''lseek'') st)\<lparr>real_lseek := Some fl\<rparr>) = Return u st2
           \<longrightarrow> initialized st2 \<and> real_lseek st2 = Some fl)"
    using b by (auto simp: lseek_first_call)
  have c': "real_stat st = None \<and> dlsym_xstat e (trace st) = Some fs \<longrightarrow>
        xstat e st ver path buf =
          (case init e ((emit (Ev_dlsym ''__xstat'') st)\<lparr>real_stat := Some fs\<rparr>) of
             Return u st2 \<Rightarrow> xstat e st2 ver path buf
           | Abort s \<Rightarrow> Abort s
           | Undefined \<Rightarrow> Undefined) \<and>
        (\<forall>u st2. init e ((emit (Ev_dlsym ''__xstat'') st)\<lparr>real_stat := Some fs\<rparr>) = Return u st2
           \<longrightarrow> initialized st2 \<and> real_stat st2 = Some fs)"
    using c by (auto simp: xstat_first_call)
  have d': "real_fstat st = None \<and> dlsym_fxstat e (trace st) = Some ff \<longrightarrow>
        fxstat e st ver fd buf =
          (case init e ((emit (Ev_dlsym ''__fxstat'') st)\<lparr>real_fstat := Some ff\<rparr>) of
             Return u st2 \<Rightarrow> fxstat e st2 ver fd buf
           | Abort s \<Rightarrow> Abort s
           | Undefined \<Rightarrow> Undefined) \<and>
        (\<forall>u st2. init e ((emit (Ev_dlsym ''__fxstat'') st)\<lparr>real_fstat := Some ff\<rparr>) = Return u st2
           \<longrightarrow> initialized st2 \<and> real_fstat st2 = Some ff)"
    using d by (auto simp: fxstat_first_call)
  have e': "resolved_once st \<longrightarrow>
        (case step e st c of
           Return u st' \<Rightarrow> resolved_once st' \<and> pointers_kept st st' \<and>
             (initialized st \<longrightarrow> same_window st st')
         | Abort s \<Rightarrow> abort_once s
         | Undefined \<Rightarrow> False)"
    using step_once [where st = st and e = e and c = c] by simp
  show ?thesis
    by (intro conjI a b' c' d' e')
qed


lemma spec_run:
  "run start_state spec_calls = Return () (ready_state\<lparr>trace := spec_trace\<rparr>)"
  by (simp add: spec_calls_def spec_env_def spec_trace_def ready_state_def eval_simps)

lemma spec_step:
  "step spec_env (ready_state\<lparr>trace := spec_trace\<rparr>) (Call_fxstat 1 3 image_stat)
     = Return () (ready_state\<lparr>trace := spec_trace @ [Ev_real_fstat 1 3]\<rparr>)"
  by (simp add: spec_env_def ready_state_def eval_simps)

lemma spec_first:
  "init spec_env ((emit (Ev_dlsym ''lseek'') start_state)\<lparr>real_lseek := Some ideal_lseek\<rparr>)
     = Return () (ready_state\<lparr>real_stat := None, trace := take 11 spec_trace\<rparr>)"
  by (simp add: spec_env_def spec_trace_def ready_state_def eval_simps)

theorem resolution_once_witness:
  "run start_state spec_calls = Return () (ready_state\<lparr>trace := spec_trace\<rparr>)
   \<and> resolved_once (ready_state\<lparr>trace := spec_trace\<rparr>)
   \<and> dlsym_names spec_trace = [''lseek'', ''__fxstat'', ''__xstat'']
   \<and> real_lseek start_state = None
   \<and> dlsym_lseek spec_env (trace start_state) = Some ideal_lseek
   \<and> lseek spec_env start_state 3 104857700 SEEK_SET
       = lseek spec_env (ready_state\<lparr>real_stat := None, trace := take 11 spec_trace\<rparr>)
           3 104857700 SEEK_SET
   \<and> step spec_env (ready_state\<lparr>trace := spec_trace\<rparr>) (Call_fxstat 1 3 image_stat)
       = Return () (ready_state\<lparr>trace := spec_trace @ [Ev_real_fstat 1 3]\<rparr>)
   \<and> resolved_once (ready_state\<lparr>trace := spec_trace @ [Ev_real_fstat 1 3]\<rparr>)
   \<and> pointers_kept (ready_state\<lparr>trace := spec_trace\<rparr>)
        (ready_state\<lparr>trace := spec_trace @ [Ev_real_fstat 1 3]\<rparr>)
   \<and> same_window (ready_state\<lparr>trace := spec_trace\<rparr>)
        (ready_state\<lparr>trace := spec_trace @ [Ev_real_fstat 1 3]\<rparr>)"
proof -
  note th = resolution_once [where cs = spec_calls and e = spec_env]
  have h: "real_lseek start_state = None"
    "dlsym_lseek spec_env (trace start_state) = Some ideal_lseek"
    "initialized (ready_state\<lparr>trace := spec_trace\<rparr>)"
    by (simp_all add: start_state_def spec_env_def test_env_def ready_state_def)
  from th have r: "resolved_once (ready_state\<lparr>trace := spec_trace\<rparr>)"
    by (simp add: spec_run)
  from th [where st = start_state and fl = ideal_lseek and fd = 3 and offset = 104857700
      and whence = SEEK_SET] h
  have f: "lseek spec_env start_state 3 104857700 SEEK_SET
       = lseek spec_env (ready_state\<lparr>real_stat := None, trace := take 11 spec_trace\<rparr>)
           3 104857700 SEEK_SET"
    by (simp add: spec_first)
  from th [where st = "ready_state\<lparr>trace := spec_trace\<rparr>" and c = "Call_fxstat 1 3 image_stat"] r h
  have s: "resolved_once (ready_state\<lparr>trace := spec_trace @ [Ev_real_fstat 1 3]\<rparr>)
     \<and> pointers_kept (ready_state\<lparr>trace := spec_trace\<rparr>)
        (ready_state\<lparr>trace := spec_trace @ [Ev_real_fstat 1 3]\<rparr>)
     \<and> same_window (ready_state\<lparr>trace := spec_trace\<rparr>)
        (ready_state\<lparr>trace := spec_trace @ [Ev_real_fstat 1 3]\<rparr>)"
    by (simp add: spec_step del: step.simps)
  have n: "dlsym_names spec_trace = [''lseek'', ''__fxstat'', ''__xstat'']"
    by (simp add: spec_trace_def)
  show ?thesis
    using r f s n h spec_run spec_step by (simp del: step.simps)
qed

end
